theory Spec2Isabelle
  imports Main "HOL-Library.Sublist"
begin

section \<open>Python values that travel through the caches\<close>

text \<open>
  The three cache files of \<^verbatim>\<open>proj2_nps.py\<close> hold JSON documents, and the program
  handles what \<^verbatim>\<open>json.load\<close> returns without checking its shape. The values
  are therefore modelled dynamically: one datatype for every Python value a JSON
  document decodes to. A Python \<^verbatim>\<open>dict\<close> keeps its keys in insertion order and
  has no duplicate key; it is an association list, and \<open>wf_json\<close> states that the
  keys of every dictionary are distinct.

  Limits of the model, stated once: a Python \<^verbatim>\<open>str\<close> is a \<open>string\<close>, so a
  character is a code point below 256; numbers are integers (no \<^verbatim>\<open>float\<close>).
\<close>

datatype json =
    JNull
  | JBool bool
  | JNum int
  | JStr string
  | JArr "json list"
  | JObj "(string \<times> json) list"

fun wf_json :: "json \<Rightarrow> bool" where
  "wf_json (JArr xs) = list_all wf_json xs"
| "wf_json (JObj kvs) = (distinct (map fst kvs) \<and> list_all (\<lambda>kv. wf_json (snd kv)) kvs)"
| "wf_json _ = True"

text \<open>The exceptions of the Python run that the model distinguishes. \<open>Unmodelled\<close>
  is not a Python exception: it marks a run that leaves the limits of the model
  (a float in a document, a code point above 255, a value of an unexpected type
  flowing where the model has a string).\<close>

datatype error =
    URLError
  | JSONDecodeError
  | KeyError
  | AttributeError
  | TypeError
  | IndexError
  | ValueError
  | EOFError
  | Unmodelled

subsection \<open>Characters\<close>

abbreviation dquote :: char where "dquote \<equiv> CHR 0x22"
abbreviation bslash :: char where "bslash \<equiv> CHR 0x5C"

definition is_digit :: "char \<Rightarrow> bool" where
  "is_digit c = (48 \<le> (of_char c :: nat) \<and> (of_char c :: nat) \<le> 57)"

definition digit_val :: "char \<Rightarrow> nat" where
  "digit_val c = of_char c - 48"

definition digit_char :: "nat \<Rightarrow> char" where
  "digit_char d = char_of (48 + d)"

text \<open>Lower-case hexadecimal digit, as \<^verbatim>\<open>'\\u{0:04x}'.format(n)\<close> prints it.\<close>

definition hex_digit :: "nat \<Rightarrow> char" where
  "hex_digit d = (if d < 10 then char_of (48 + d) else char_of (87 + d))"

definition hex_val :: "char \<Rightarrow> nat option" where
  "hex_val c =
     (let n = (of_char c :: nat) in
      if 48 \<le> n \<and> n \<le> 57 then Some (n - 48)
      else if 97 \<le> n \<and> n \<le> 102 then Some (n - 87)
      else if 65 \<le> n \<and> n \<le> 70 then Some (n - 55)
      else None)"

subsection \<open>\<^verbatim>\<open>json.dump\<close>: the serializer\<close>

text \<open>
  \<^verbatim>\<open>json.dump(cache, f)\<close> with its defaults: \<^verbatim>\<open>ensure_ascii=True\<close>, item
  separator \<^verbatim>\<open>", "\<close>, key separator \<^verbatim>\<open>": "\<close>, keys in insertion order.
  A character of a string is written as itself when it is printable ASCII other than
  the quote and the backslash, with its short escape when it has one, and as
  \<^verbatim>\<open>\u00xx\<close> otherwise.
\<close>

definition escape_char :: "char \<Rightarrow> string" where
  "escape_char c =
     (if c = bslash then [bslash, bslash]
      else if c = dquote then [bslash, dquote]
      else if c = CHR 0x08 then [bslash, CHR ''b'']
      else if c = CHR 0x0C then [bslash, CHR ''f'']
      else if c = CHR 0x0A then [bslash, CHR ''n'']
      else if c = CHR 0x0D then [bslash, CHR ''r'']
      else if c = CHR 0x09 then [bslash, CHR ''t'']
      else if 32 \<le> (of_char c :: nat) \<and> (of_char c :: nat) \<le> 126 then [c]
      else [bslash, CHR ''u'', CHR ''0'', CHR ''0'',
            hex_digit ((of_char c :: nat) div 16), hex_digit ((of_char c :: nat) mod 16)])"

definition encode_string :: "string \<Rightarrow> string" where
  "encode_string s = dquote # concat (map escape_char s) @ [dquote]"

fun show_nat :: "nat \<Rightarrow> string" where
  "show_nat n = (if n < 10 then [digit_char n] else show_nat (n div 10) @ [digit_char (n mod 10)])"

declare show_nat.simps [simp del]

definition show_int :: "int \<Rightarrow> string" where
  "show_int i = (if i < 0 then CHR ''-'' # show_nat (nat (- i)) else show_nat (nat i))"

fun dumps :: "json \<Rightarrow> string"
  and dumps_elems :: "json list \<Rightarrow> string"
  and dumps_members :: "(string \<times> json) list \<Rightarrow> string" where
  "dumps JNull = ''null''"
| "dumps (JBool b) = (if b then ''true'' else ''false'')"
| "dumps (JNum i) = show_int i"
| "dumps (JStr s) = encode_string s"
| "dumps (JArr xs) = ''['' @ dumps_elems xs @ '']''"
| "dumps (JObj kvs) = ''{'' @ dumps_members kvs @ ''}''"
| "dumps_elems [] = []"
| "dumps_elems [x] = dumps x"
| "dumps_elems (x # y # ys) = dumps x @ '', '' @ dumps_elems (y # ys)"
| "dumps_members [] = []"
| "dumps_members [(k, v)] = encode_string k @ '': '' @ dumps v"
| "dumps_members ((k, v) # kv # kvs) =
     encode_string k @ '': '' @ dumps v @ '', '' @ dumps_members (kv # kvs)"

subsection \<open>\<^verbatim>\<open>json.load\<close>: the parser\<close>

text \<open>
  The decoder of the \<^verbatim>\<open>json\<close> module is a recursive-descent parser: a scanner
  that looks at the next character and calls the string, object, array, literal or
  number reader. White space is blank, tab, line feed and carriage return.
  A parse either gives a value and the rest of the text, or fails: \<open>Malformed\<close> is
  Python's \<^verbatim>\<open>JSONDecodeError\<close>; \<open>Unsupported\<close> marks a text that Python may
  accept but whose value is outside the model (a float, \<^verbatim>\<open>NaN\<close>,
  \<^verbatim>\<open>Infinity\<close>, an escape of a code point above 255); \<open>OutOfFuel\<close> is the
  recursion bound of the model, shown below never to be reached by \<open>json_loads\<close>.
\<close>

datatype perr = Malformed | Unsupported | OutOfFuel

definition is_ws :: "char \<Rightarrow> bool" where
  "is_ws c = (c = CHR '' '' \<or> c = CHR 0x09 \<or> c = CHR 0x0A \<or> c = CHR 0x0D)"

fun skip_ws :: "string \<Rightarrow> string" where
  "skip_ws [] = []"
| "skip_ws (c # cs) = (if is_ws c then skip_ws cs else c # cs)"

text \<open>The short escapes of the decoder (its \<^verbatim>\<open>BACKSLASH\<close> table).\<close>

definition unescape :: "char \<Rightarrow> char option" where
  "unescape e =
     (if e = dquote then Some dquote
      else if e = bslash then Some bslash
      else if e = CHR ''/'' then Some CHR ''/''
      else if e = CHR ''b'' then Some (CHR 0x08)
      else if e = CHR ''f'' then Some (CHR 0x0C)
      else if e = CHR ''n'' then Some (CHR 0x0A)
      else if e = CHR ''r'' then Some (CHR 0x0D)
      else if e = CHR ''t'' then Some (CHR 0x09)
      else None)"

definition hex4 :: "char \<Rightarrow> char \<Rightarrow> char \<Rightarrow> char \<Rightarrow> nat option" where
  "hex4 a b c d =
     (case (hex_val a, hex_val b, hex_val c, hex_val d) of
        (Some x, Some y, Some z, Some w) \<Rightarrow> Some (((x * 16 + y) * 16 + z) * 16 + w)
      | _ \<Rightarrow> None)"

definition cons_char :: "char \<Rightarrow> perr + (string \<times> string) \<Rightarrow> perr + (string \<times> string)" where
  "cons_char c r = (case r of Inl e \<Rightarrow> Inl e | Inr (s, rest) \<Rightarrow> Inr (c # s, rest))"

text \<open>\<^verbatim>\<open>scanstring\<close>, strict mode, called after the opening quote: the content of
  the string literal and the text after its closing quote. A raw control character
  inside the literal is an error.\<close>

fun scanstring :: "string \<Rightarrow> perr + (string \<times> string)" where
  "scanstring [] = Inl Malformed"
| "scanstring (c # cs) =
     (if c = dquote then Inr ([], cs)
      else if c = bslash then
        (case cs of
           [] \<Rightarrow> Inl Malformed
         | e # r \<Rightarrow>
             if e = CHR ''u'' then
               (case r of
                  h1 # h2 # h3 # h4 # r' \<Rightarrow>
                    (case hex4 h1 h2 h3 h4 of
                       None \<Rightarrow> Inl Malformed
                     | Some n \<Rightarrow>
                         if n < 256 then cons_char (char_of n) (scanstring r')
                         else Inl Unsupported)
                | _ \<Rightarrow> Inl Malformed)
             else
               (case unescape e of
                  None \<Rightarrow> Inl Malformed
                | Some ch \<Rightarrow> cons_char ch (scanstring r)))
      else if (of_char c :: nat) < 32 then Inl Malformed
      else cons_char c (scanstring cs))"

text \<open>The integer part of the number pattern \<^verbatim>\<open>(-?(?:0|[1-9]\d*))\<close>. When a
  fraction or an exponent may follow, the number may be a float.\<close>

fun read_nat :: "nat \<Rightarrow> string \<Rightarrow> nat \<times> string" where
  "read_nat acc [] = (acc, [])"
| "read_nat acc (c # cs) =
     (if is_digit c then read_nat (10 * acc + digit_val c) cs else (acc, c # cs))"

definition float_follows :: "string \<Rightarrow> bool" where
  "float_follows r =
     (case r of [] \<Rightarrow> False | c # _ \<Rightarrow> c = CHR ''.'' \<or> c = CHR ''e'' \<or> c = CHR ''E'')"

definition finish_number :: "bool \<Rightarrow> nat \<Rightarrow> string \<Rightarrow> perr + (json \<times> string)" where
  "finish_number neg n r =
     (if float_follows r then Inl Unsupported
      else Inr (JNum (if neg then - int n else int n), r))"

definition scan_digits :: "bool \<Rightarrow> string \<Rightarrow> perr + (json \<times> string)" where
  "scan_digits neg s =
     (case s of
        [] \<Rightarrow> Inl Malformed
      | c # r \<Rightarrow>
          if c = CHR ''0'' then finish_number neg 0 r
          else if is_digit c then (case read_nat 0 s of (n, r') \<Rightarrow> finish_number neg n r')
          else if c = CHR ''I'' then Inl Unsupported
          else Inl Malformed)"

definition scan_number :: "string \<Rightarrow> perr + (json \<times> string)" where
  "scan_number s =
     (case s of
        [] \<Rightarrow> Inl Malformed
      | c # r \<Rightarrow>
          if c = CHR ''-'' then scan_digits True r
          else if c = CHR ''N'' then Inl Unsupported
          else scan_digits False s)"

definition scan_literal :: "string \<Rightarrow> json \<Rightarrow> string \<Rightarrow> perr + (json \<times> string)" where
  "scan_literal lit v s =
     (if take (length lit) s = lit then Inr (v, drop (length lit) s) else Inl Malformed)"

text \<open>A Python dictionary built from the pairs of an object literal: a later pair with
  a key already present replaces the value and keeps the key's first position.\<close>

fun dict_set :: "(string \<times> json) list \<Rightarrow> string \<Rightarrow> json \<Rightarrow> (string \<times> json) list" where
  "dict_set [] k v = [(k, v)]"
| "dict_set ((k', v') # kvs) k v =
     (if k' = k then (k', v) # kvs else (k', v') # dict_set kvs k v)"

definition dict_of_pairs :: "(string \<times> json) list \<Rightarrow> (string \<times> json) list" where
  "dict_of_pairs ps = foldl (\<lambda>d kv. dict_set d (fst kv) (snd kv)) [] ps"

fun parse_value :: "nat \<Rightarrow> string \<Rightarrow> perr + (json \<times> string)"
  and parse_elems :: "nat \<Rightarrow> string \<Rightarrow> perr + (json list \<times> string)"
  and parse_members :: "nat \<Rightarrow> string \<Rightarrow> perr + ((string \<times> json) list \<times> string)" where
  "parse_value 0 s = Inl OutOfFuel"
| "parse_value (Suc n) s =
     (case s of
        [] \<Rightarrow> Inl Malformed
      | c # cs \<Rightarrow>
          if c = dquote then
            (case scanstring cs of Inl e \<Rightarrow> Inl e | Inr (str, r) \<Rightarrow> Inr (JStr str, r))
          else if c = CHR ''{'' then
            (case skip_ws cs of
               [] \<Rightarrow> Inl Malformed
             | d # r \<Rightarrow>
                 if d = CHR ''}'' then Inr (JObj [], r)
                 else (case parse_members n (d # r) of
                         Inl e \<Rightarrow> Inl e
                       | Inr (ps, r') \<Rightarrow> Inr (JObj (dict_of_pairs ps), r')))
          else if c = CHR ''['' then
            (case skip_ws cs of
               [] \<Rightarrow> Inl Malformed
             | d # r \<Rightarrow>
                 if d = CHR '']'' then Inr (JArr [], r)
                 else (case parse_elems n (d # r) of
                         Inl e \<Rightarrow> Inl e
                       | Inr (vs, r') \<Rightarrow> Inr (JArr vs, r')))
          else if c = CHR ''n'' then scan_literal ''null'' JNull s
          else if c = CHR ''t'' then scan_literal ''true'' (JBool True) s
          else if c = CHR ''f'' then scan_literal ''false'' (JBool False) s
          else scan_number s)"
| "parse_elems 0 s = Inl OutOfFuel"
| "parse_elems (Suc n) s =
     (case parse_value n s of
        Inl e \<Rightarrow> Inl e
      | Inr (v, r) \<Rightarrow>
          (case skip_ws r of
             [] \<Rightarrow> Inl Malformed
           | d # r' \<Rightarrow>
               if d = CHR '']'' then Inr ([v], r')
               else if d = CHR '','' then
                 (case parse_elems n (skip_ws r') of
                    Inl e \<Rightarrow> Inl e
                  | Inr (vs, r'') \<Rightarrow> Inr (v # vs, r''))
               else Inl Malformed))"
| "parse_members 0 s = Inl OutOfFuel"
| "parse_members (Suc n) s =
     (case s of
        [] \<Rightarrow> Inl Malformed
      | q # cs \<Rightarrow>
          if q \<noteq> dquote then Inl Malformed
          else
            (case scanstring cs of
               Inl e \<Rightarrow> Inl e
             | Inr (k, r) \<Rightarrow>
                 (case skip_ws r of
                    [] \<Rightarrow> Inl Malformed
                  | col # r1 \<Rightarrow>
                      if col \<noteq> CHR '':'' then Inl Malformed
                      else
                        (case parse_value n (skip_ws r1) of
                           Inl e \<Rightarrow> Inl e
                         | Inr (v, r2) \<Rightarrow>
                             (case skip_ws r2 of
                                [] \<Rightarrow> Inl Malformed
                              | d # r3 \<Rightarrow>
                                  if d = CHR ''}'' then Inr ([(k, v)], r3)
                                  else if d = CHR '','' then
                                    (case parse_members n (skip_ws r3) of
                                       Inl e \<Rightarrow> Inl e
                                     | Inr (kvs, r4) \<Rightarrow> Inr ((k, v) # kvs, r4))
                                  else Inl Malformed)))))"

text \<open>\<^verbatim>\<open>json.loads\<close>: white space, one value, white space, end of text
  (anything else after the value is Python's ``Extra data'' error).\<close>

definition json_loads :: "string \<Rightarrow> error + json" where
  "json_loads s =
     (case parse_value (2 * length s + 1) (skip_ws s) of
        Inl Malformed \<Rightarrow> Inl JSONDecodeError
      | Inl Unsupported \<Rightarrow> Inl Unmodelled
      | Inl OutOfFuel \<Rightarrow> Inl Unmodelled
      | Inr (v, r) \<Rightarrow> (if skip_ws r = [] then Inr v else Inl JSONDecodeError))"

section \<open>Python operations used by the program\<close>

text \<open>Subscripting, membership, item assignment and \<^verbatim>\<open>len\<close> on a decoded
  value, always with a string as the key, as the program uses them. On a list or a
  string the subscript with a string raises \<^verbatim>\<open>TypeError\<close>; membership in a
  list compares elements, in a string it is the substring test.\<close>

fun py_len :: "json \<Rightarrow> error + nat" where
  "py_len (JObj kvs) = Inr (length kvs)"
| "py_len (JArr xs) = Inr (length xs)"
| "py_len (JStr s) = Inr (length s)"
| "py_len _ = Inl TypeError"

fun py_contains :: "json \<Rightarrow> string \<Rightarrow> error + bool" where
  "py_contains (JObj kvs) k = Inr (k \<in> set (map fst kvs))"
| "py_contains (JArr xs) k = Inr (JStr k \<in> set xs)"
| "py_contains (JStr s) k = Inr (sublist k s)"
| "py_contains _ k = Inl TypeError"

fun py_getitem :: "json \<Rightarrow> string \<Rightarrow> error + json" where
  "py_getitem (JObj kvs) k = (case map_of kvs k of None \<Rightarrow> Inl KeyError | Some v \<Rightarrow> Inr v)"
| "py_getitem _ k = Inl TypeError"

fun py_setitem :: "json \<Rightarrow> string \<Rightarrow> json \<Rightarrow> error + json" where
  "py_setitem (JObj kvs) k v = Inr (JObj (dict_set kvs k v))"
| "py_setitem _ k v = Inl TypeError"

text \<open>\<^verbatim>\<open>str.strip()\<close> and \<^verbatim>\<open>str.lower()\<close> on code points below 256.\<close>

definition py_isspace :: "char \<Rightarrow> bool" where
  "py_isspace c =
     (let n = (of_char c :: nat) in
      (9 \<le> n \<and> n \<le> 13) \<or> (28 \<le> n \<and> n \<le> 32) \<or> n = 133 \<or> n = 160)"

definition strip :: "string \<Rightarrow> string" where
  "strip s = rev (dropWhile py_isspace (rev (dropWhile py_isspace s)))"

definition lower_char :: "char \<Rightarrow> char" where
  "lower_char c =
     (let n = (of_char c :: nat) in
      if (65 \<le> n \<and> n \<le> 90) \<or> (192 \<le> n \<and> n \<le> 222 \<and> n \<noteq> 215) then char_of (n + 32)
      else c)"

definition lower :: "string \<Rightarrow> string" where
  "lower s = map lower_char s"

definition startswith :: "string \<Rightarrow> string \<Rightarrow> bool" where
  "startswith s p = (take (length p) s = p)"

section \<open>The data model\<close>

record NationalSite =
  category :: string
  name :: string
  address :: string
  zipcode :: string
  phone :: string

definition info :: "NationalSite \<Rightarrow> string" where
  "info ns = name ns @ '' ('' @ category ns @ ''): '' @ address ns @ '' '' @ zipcode ns"

text \<open>
  What the program asks of a page parsed by BeautifulSoup. Each field is the answer to
  one query of the source, \<open>None\<close> where \<^verbatim>\<open>find\<close> returns \<^verbatim>\<open>None\<close> or the
  attribute is missing:
  \<^item> \<open>areas\<close>: \<^verbatim>\<open>findAll("area")\<close>, each with its \<^verbatim>\<open>alt\<close> and \<^verbatim>\<open>href\<close>;
  \<^item> \<open>title_container\<close>: \<^verbatim>\<open>find("div", class_="Hero-titleContainer clearfix")\<close>
    with the text of its first \<^verbatim>\<open>a\<close> and of its \<^verbatim>\<open>Hero-designation\<close> span;
  \<^item> \<open>address_p\<close>: \<^verbatim>\<open>find("p", class_="adr")\<close> with the text of its
    \<^verbatim>\<open>addressLocality\<close>, \<^verbatim>\<open>addressRegion\<close> and \<^verbatim>\<open>postalCode\<close> spans;
  \<^item> \<open>telephone\<close>: the text of \<^verbatim>\<open>find("span", {"itemprop": "telephone"})\<close>;
  \<^item> \<open>blocks\<close>: \<^verbatim>\<open>findAll("li", class_="clearfix")\<close>, each with its \<^verbatim>\<open>id\<close>
    and the result of \<^verbatim>\<open>find("div").find("h3").find("a")["href"]\<close>.
\<close>

record area =
  alt :: "string option"
  href :: "string option"

record title_block =
  link_text :: "string option"
  designation_text :: "string option"

record adr_block =
  locality_text :: "string option"
  region_text :: "string option"
  postal_text :: "string option"

datatype link = NoDiv | NoH3 | NoAnchor | NoHref | Href string

record block =
  block_id :: "string option"
  block_link :: link

record soup =
  areas :: "area list"
  title_container :: "title_block option"
  address_p :: "adr_block option"
  telephone :: "string option"
  blocks :: "block list"

text \<open>
  The world the program runs in: the files of the working directory, the remote
  servers (the decoded body behind each URL, \<open>None\<close> when \<^verbatim>\<open>urlopen\<close> raises),
  the two ways the source builds a soup (\<^verbatim>\<open>BeautifulSoup(html, "html.parser")\<close>
  and \<^verbatim>\<open>BeautifulSoup(html)\<close>), the requests issued so far and the lines printed
  so far. The lines typed at the prompts are an argument of \<open>main\<close>.
\<close>

record world =
  files :: "string \<rightharpoonup> string"
  web :: "string \<rightharpoonup> string"
  html_parser :: "string \<Rightarrow> soup"
  default_parser :: "string \<Rightarrow> soup"
  requests :: "string list"
  stdout :: "string list"

definition print :: "string \<Rightarrow> world \<Rightarrow> world" where
  "print line w = w\<lparr>stdout := stdout w @ [line]\<rparr>"

definition urlopen :: "string \<Rightarrow> world \<Rightarrow> (error + string) \<times> world" where
  "urlopen url w =
     (let w' = w\<lparr>requests := requests w @ [url]\<rparr> in
      case web w url of None \<Rightarrow> (Inl URLError, w') | Some body \<Rightarrow> (Inr body, w'))"

section \<open>The cache files\<close>

definition openCache :: "string \<Rightarrow> world \<Rightarrow> error + json" where
  "openCache filename w =
     (case files w filename of
        None \<Rightarrow> Inr (JObj [])
      | Some text \<Rightarrow> json_loads text)"

text \<open>\<^verbatim>\<open>closeCache\<close> is \<^verbatim>\<open>open(filename, "w")\<close>, which creates the file or
  truncates it to length zero, followed by \<^verbatim>\<open>json.dump\<close>, which appends the
  document to what the file holds. \<open>closeCache_states\<close> lists the states of the
  file system the call passes through, in order; the last is the result.\<close>

definition open_w :: "string \<Rightarrow> world \<Rightarrow> world" where
  "open_w filename w = w\<lparr>files := (files w)(filename \<mapsto> [])\<rparr>"

definition json_dump :: "json \<Rightarrow> string \<Rightarrow> world \<Rightarrow> world" where
  "json_dump cache filename w =
     w\<lparr>files := (files w)(filename \<mapsto>
        (case files w filename of None \<Rightarrow> [] | Some old \<Rightarrow> old) @ dumps cache)\<rparr>"

definition closeCache_states :: "json \<Rightarrow> string \<Rightarrow> world \<Rightarrow> world list" where
  "closeCache_states cache filename w =
     [open_w filename w, json_dump cache filename (open_w filename w)]"

definition closeCache :: "json \<Rightarrow> string \<Rightarrow> world \<Rightarrow> world" where
  "closeCache cache filename w = json_dump cache filename (open_w filename w)"

section \<open>The state directory\<close>

definition STATE_CACHE :: string where "STATE_CACHE = ''STATE_URL_DICT.json''"
definition SITE_CACHE :: string where "SITE_CACHE = ''SITE_URL_DICT.json''"
definition NEARBY_CACHE :: string where "NEARBY_CACHE = ''NEARBY_PLACES.json''"
definition TARGET_URL :: string where "TARGET_URL = ''https://www.nps.gov/findapark/index.htm''"
definition BASE_URL :: string where "BASE_URL = ''https://www.nps.gov''"

text \<open>The loop over the \<^verbatim>\<open>area\<close> elements: \<^verbatim>\<open>area["alt"]\<close> and
  \<^verbatim>\<open>area["href"]\<close> raise \<^verbatim>\<open>KeyError\<close> on a missing attribute.\<close>

fun areas_loop :: "area list \<Rightarrow> (string \<times> json) list \<Rightarrow> error + (string \<times> json) list" where
  "areas_loop [] rd = Inr rd"
| "areas_loop (a # as) rd =
     (case alt a of
        None \<Rightarrow> Inl KeyError
      | Some al \<Rightarrow>
          (case href a of
             None \<Rightarrow> Inl KeyError
           | Some h \<Rightarrow> areas_loop as (dict_set rd (lower al) (JStr (BASE_URL @ h)))))"

definition build_state_url_dict :: "world \<Rightarrow> (error + json) \<times> world" where
  "build_state_url_dict w =
     (case openCache STATE_CACHE w of
        Inl e \<Rightarrow> (Inl e, w)
      | Inr cache \<Rightarrow>
          (case py_len cache of
             Inl e \<Rightarrow> (Inl e, w)
           | Inr n \<Rightarrow>
               if n \<noteq> 0 then (Inr cache, print ''Using cache'' w)
               else
                 (case urlopen TARGET_URL (print ''Fetching'' w) of
                    (Inl e, w') \<Rightarrow> (Inl e, w')
                  | (Inr html, w') \<Rightarrow>
                      (case areas_loop (areas (html_parser w' html)) [] of
                         Inl e \<Rightarrow> (Inl e, w')
                       | Inr rd \<Rightarrow> (Inr (JObj rd), closeCache (JObj rd) STATE_CACHE w')))))"

section \<open>Site details\<close>

text \<open>The cache-hit path reads the five fields in the order of the constructor call;
  a stored field that is not a string leaves the model, whose sites hold strings.\<close>

definition ebind :: "error + 'a \<Rightarrow> ('a \<Rightarrow> error + 'b) \<Rightarrow> error + 'b" where
  "ebind m f = (case m of Inl e \<Rightarrow> Inl e | Inr x \<Rightarrow> f x)"

definition str_field :: "json \<Rightarrow> error + string" where
  "str_field v = (case v of JStr s \<Rightarrow> Inr s | _ \<Rightarrow> Inl Unmodelled)"

definition site_of_entry :: "json \<Rightarrow> error + NationalSite" where
  "site_of_entry c =
     ebind (py_getitem c ''category'') (\<lambda>v1.
     ebind (py_getitem c ''name'') (\<lambda>v2.
     ebind (py_getitem c ''address'') (\<lambda>v3.
     ebind (py_getitem c ''zipcode'') (\<lambda>v4.
     ebind (py_getitem c ''phone'') (\<lambda>v5.
     ebind (str_field v1) (\<lambda>s1.
     ebind (str_field v2) (\<lambda>s2.
     ebind (str_field v3) (\<lambda>s3.
     ebind (str_field v4) (\<lambda>s4.
     ebind (str_field v5) (\<lambda>s5.
       Inr \<lparr>category = s1, name = s2, address = s3, zipcode = s4, phone = s5\<rparr>))))))))))"

definition entry_of_site :: "NationalSite \<Rightarrow> json" where
  "entry_of_site ns =
     JObj [(''category'', JStr (category ns)), (''name'', JStr (name ns)),
           (''address'', JStr (address ns)), (''zipcode'', JStr (zipcode ns)),
           (''phone'', JStr (phone ns))]"

text \<open>The extraction from a fetched detail page, lines 119 to 132 of the source.
  \<^verbatim>\<open>.find\<close> or \<^verbatim>\<open>.text\<close> on \<^verbatim>\<open>None\<close> raises \<^verbatim>\<open>AttributeError\<close>
  (\<open>found\<close>); the title is read before the address block is looked at.\<close>

definition found :: "'a option \<Rightarrow> error + 'a" where
  "found x = (case x of None \<Rightarrow> Inl AttributeError | Some y \<Rightarrow> Inr y)"

definition parse_site :: "soup \<Rightarrow> error + NationalSite option" where
  "parse_site bs =
     ebind (found (title_container bs)) (\<lambda>tc.
     ebind (found (link_text tc)) (\<lambda>nm.
     ebind (found (designation_text tc)) (\<lambda>cat.
       (case address_p bs of
          None \<Rightarrow> Inr None
        | Some adr \<Rightarrow>
            ebind (found (postal_text adr)) (\<lambda>pc.
            ebind (found (locality_text adr)) (\<lambda>addr.
            ebind (found (region_text adr)) (\<lambda>st.
            ebind (found (telephone bs)) (\<lambda>tel.
              Inr (Some \<lparr>category = cat, name = nm, address = addr @ '', '' @ strip st,
                          zipcode = strip pc, phone = strip tel\<rparr>)))))))))"

definition get_site_instance :: "string \<Rightarrow> world \<Rightarrow> (error + NationalSite option) \<times> world" where
  "get_site_instance site_url w =
     (case openCache SITE_CACHE w of
        Inl e \<Rightarrow> (Inl e, w)
      | Inr cache \<Rightarrow>
          (case py_contains cache site_url of
             Inl e \<Rightarrow> (Inl e, w)
           | Inr True \<Rightarrow>
               (case py_getitem cache site_url of
                  Inl e \<Rightarrow> (Inl e, w)
                | Inr c \<Rightarrow>
                    (case site_of_entry c of
                       Inl e \<Rightarrow> (Inl e, print ''Using Cache'' w)
                     | Inr ns \<Rightarrow> (Inr (Some ns), print ''Using Cache'' w)))
           | Inr False \<Rightarrow>
               (case urlopen site_url (print ''Fetching'' w) of
                  (Inl e, w') \<Rightarrow> (Inl e, w')
                | (Inr html, w') \<Rightarrow>
                    (case parse_site (html_parser w' html) of
                       Inl e \<Rightarrow> (Inl e, w')
                     | Inr None \<Rightarrow> (Inr None, w')
                     | Inr (Some ns) \<Rightarrow>
                         (case py_setitem cache site_url (entry_of_site ns) of
                            Inl e \<Rightarrow> (Inl e, w')
                          | Inr cache' \<Rightarrow> (Inr (Some ns), closeCache cache' SITE_CACHE w'))))))"

section \<open>The sites of a state\<close>

definition link_href :: "link \<Rightarrow> error + string" where
  "link_href l =
     (case l of
        NoDiv \<Rightarrow> Inl AttributeError
      | NoH3 \<Rightarrow> Inl AttributeError
      | NoAnchor \<Rightarrow> Inl AttributeError
      | NoHref \<Rightarrow> Inl KeyError
      | Href h \<Rightarrow> Inr h)"

definition is_asset :: "block \<Rightarrow> bool" where
  "is_asset b = (case block_id b of None \<Rightarrow> False | Some i \<Rightarrow> startswith i ''asset'')"

text \<open>The body of the loop for one asset entry: the link, then the resolution.\<close>

definition resolve_entry :: "block \<Rightarrow> world \<Rightarrow> (error + NationalSite option) \<times> world" where
  "resolve_entry b w =
     (case link_href (block_link b) of
        Inl e \<Rightarrow> (Inl e, w)
      | Inr h \<Rightarrow> get_site_instance (BASE_URL @ h) w)"

fun sites_loop :: "block list \<Rightarrow> NationalSite list \<Rightarrow> world \<Rightarrow> (error + NationalSite list) \<times> world" where
  "sites_loop [] nationalSites w = (Inr nationalSites, w)"
| "sites_loop (b # bs) nationalSites w =
     (case block_id b of
        None \<Rightarrow> sites_loop bs nationalSites w
      | Some i \<Rightarrow>
          if \<not> startswith i ''asset'' then sites_loop bs nationalSites w
          else
            (case resolve_entry b w of
               (Inl e, w') \<Rightarrow> (Inl e, w')
             | (Inr None, w') \<Rightarrow> sites_loop bs nationalSites w'
             | (Inr (Some ns), w') \<Rightarrow> sites_loop bs (nationalSites @ [ns]) w'))"

definition get_sites_for_state :: "string \<Rightarrow> world \<Rightarrow> (error + NationalSite list) \<times> world" where
  "get_sites_for_state state_url w =
     (case urlopen state_url w of
        (Inl e, w') \<Rightarrow> (Inl e, w')
      | (Inr html, w') \<Rightarrow> sites_loop (blocks (default_parser w' html)) [] w')"

section \<open>Nearby places\<close>

text \<open>\<open>api_key\<close> stands for \<^verbatim>\<open>secrets.API_KEY\<close>, whose module is not part of the
  repository.\<close>

definition nearby_url :: "string \<Rightarrow> string \<Rightarrow> string" where
  "nearby_url api_key origin =
     ''http://www.mapquestapi.com/search/v2/radius'' @ ''?'' @ ''key='' @ api_key
       @ ''&maxMatches='' @ show_int 10 @ ''&origin='' @ origin @ ''&radius='' @ show_int 10
       @ ''&ambiguities='' @ ''ignore'' @ ''&outFormat='' @ ''json''"

definition get_nearby_places :: "string \<Rightarrow> NationalSite \<Rightarrow> world \<Rightarrow> (error + json) \<times> world" where
  "get_nearby_places api_key site_object w =
     (case openCache NEARBY_CACHE w of
        Inl e \<Rightarrow> (Inl e, w)
      | Inr cache \<Rightarrow>
          (case py_contains cache (zipcode site_object) of
             Inl e \<Rightarrow> (Inl e, w)
           | Inr True \<Rightarrow> (py_getitem cache (zipcode site_object), print ''Using Cache'' w)
           | Inr False \<Rightarrow>
               (case urlopen (nearby_url api_key (zipcode site_object)) (print ''Fetching'' w) of
                  (Inl e, w') \<Rightarrow> (Inl e, w')
                | (Inr js, w') \<Rightarrow>
                    (case json_loads js of
                       Inl e \<Rightarrow> (Inl e, w')
                     | Inr d \<Rightarrow>
                         (case py_setitem cache (zipcode site_object) d of
                            Inl e \<Rightarrow> (Inl e, w')
                          | Inr cache' \<Rightarrow> (Inr d, closeCache cache' NEARBY_CACHE w'))))))"

section \<open>The interactive loop\<close>

text \<open>\<^verbatim>\<open>int(token)\<close>: surrounding white space, an optional sign, then decimal digits
  with single underscores allowed between them; anything else raises
  \<^verbatim>\<open>ValueError\<close>.\<close>

fun int_digits :: "nat \<Rightarrow> string \<Rightarrow> nat option" where
  "int_digits acc [] = Some acc"
| "int_digits acc (c # cs) =
     (if is_digit c then int_digits (10 * acc + digit_val c) cs
      else if c = CHR ''_'' then
        (case cs of
           [] \<Rightarrow> None
         | d # ds \<Rightarrow> if is_digit d then int_digits (10 * acc + digit_val d) ds else None)
      else None)"

definition int_unsigned :: "string \<Rightarrow> nat option" where
  "int_unsigned s =
     (case s of
        [] \<Rightarrow> None
      | d # ds \<Rightarrow> if is_digit d then int_digits (digit_val d) ds else None)"

definition py_int :: "string \<Rightarrow> error + int" where
  "py_int token =
     (case strip token of
        [] \<Rightarrow> Inl ValueError
      | c # cs \<Rightarrow>
          if c = CHR ''-'' then
            (case int_unsigned cs of None \<Rightarrow> Inl ValueError | Some n \<Rightarrow> Inr (- int n))
          else if c = CHR ''+'' then
            (case int_unsigned cs of None \<Rightarrow> Inl ValueError | Some n \<Rightarrow> Inr (int n))
          else
            (case int_unsigned (c # cs) of None \<Rightarrow> Inl ValueError | Some n \<Rightarrow> Inr (int n)))"

text \<open>Python list indexing: a negative index counts from the end, an index out of
  range raises \<^verbatim>\<open>IndexError\<close>.\<close>

definition py_index :: "'a list \<Rightarrow> int \<Rightarrow> error + 'a" where
  "py_index xs i =
     (if 0 \<le> i \<and> i < int (length xs) then Inr (xs ! nat i)
      else if i < 0 \<and> - int (length xs) \<le> i then Inr (xs ! nat (int (length xs) + i))
      else Inl IndexError)"

text \<open>Lines 235 to 238: the selection of a site from the token (\<open>ident\<close> is the
  source's \<^verbatim>\<open>id\<close>).\<close>

definition choose_site :: "NationalSite list \<Rightarrow> string \<Rightarrow> error + NationalSite" where
  "choose_site nationalStates token =
     (case py_int token of
        Inl e \<Rightarrow> Inl e
      | Inr ident \<Rightarrow>
          if ident > int (length nationalStates) then Inl ValueError
          else py_index nationalStates (ident - 1))"

definition SEPERATOR :: string where
  "SEPERATOR = ''----------------------------------''"

text \<open>One field of a search result with its placeholder (lines 249 to 261).\<close>

definition field_or :: "json \<Rightarrow> string \<Rightarrow> string \<Rightarrow> error + json" where
  "field_or flds key placeholder =
     (case py_contains flds key of
        Inl e \<Rightarrow> Inl e
      | Inr False \<Rightarrow> Inr (JStr placeholder)
      | Inr True \<Rightarrow>
          (case py_getitem flds key of
             Inl e \<Rightarrow> Inl e
           | Inr v \<Rightarrow> if v = JStr [] \<or> v = JNull then Inr (JStr placeholder) else Inr v))"

text \<open>String concatenation raises \<^verbatim>\<open>TypeError\<close> on an operand that is not a
  string.\<close>

definition as_str :: "json \<Rightarrow> error + string" where
  "as_str v = (case v of JStr s \<Rightarrow> Inr s | _ \<Rightarrow> Inl TypeError)"

definition result_line :: "json \<Rightarrow> error + string" where
  "result_line result =
     ebind (py_getitem result ''fields'') (\<lambda>flds.
     ebind (field_or flds ''group_sic_code_name'' ''no category'') (\<lambda>cat.
     ebind (field_or flds ''address'' ''no address'') (\<lambda>adr.
     ebind (field_or flds ''city'' ''no city'') (\<lambda>cty.
     ebind (as_str adr) (\<lambda>a.
     ebind (as_str cty) (\<lambda>c.
     ebind (py_getitem result ''name'') (\<lambda>nm.
     ebind (as_str nm) (\<lambda>n.
     ebind (as_str cat) (\<lambda>g.
       Inr (''- '' @ n @ '' ('' @ g @ ''): '' @ a @ '', '' @ c))))))))))"

text \<open>What the \<^verbatim>\<open>for\<close> statement iterates over.\<close>

fun py_iter :: "json \<Rightarrow> error + json list" where
  "py_iter (JArr xs) = Inr xs"
| "py_iter (JObj kvs) = Inr (map (\<lambda>kv. JStr (fst kv)) kvs)"
| "py_iter (JStr s) = Inr (map (\<lambda>c. JStr [c]) s)"
| "py_iter _ = Inl TypeError"

fun print_results :: "json list \<Rightarrow> world \<Rightarrow> (error + unit) \<times> world" where
  "print_results [] w = (Inr (), w)"
| "print_results (r # rs) w =
     (case result_line r of
        Inl e \<Rightarrow> (Inl e, w)
      | Inr line \<Rightarrow> print_results rs (print line w))"

text \<open>The body of the \<^verbatim>\<open>try\<close> statement, lines 235 to 267.\<close>

definition try_body :: "string \<Rightarrow> NationalSite list \<Rightarrow> string \<Rightarrow> world \<Rightarrow> (error + unit) \<times> world" where
  "try_body api_key nationalStates token w =
     (case choose_site nationalStates token of
        Inl e \<Rightarrow> (Inl e, w)
      | Inr ns \<Rightarrow>
          (case get_nearby_places api_key ns w of
             (Inl e, w1) \<Rightarrow> (Inl e, w1)
           | (Inr nearJsDict, w1) \<Rightarrow>
               (let w2 = print SEPERATOR (print (''Places near '' @ name ns) (print SEPERATOR w1)) in
                case py_contains nearJsDict ''searchResults'' of
                  Inl e \<Rightarrow> (Inl e, w2)
                | Inr False \<Rightarrow> (Inr (), print SEPERATOR (print ''No such near results'' w2))
                | Inr True \<Rightarrow>
                    (case ebind (py_getitem nearJsDict ''searchResults'') py_iter of
                       Inl e \<Rightarrow> (Inl e, w2)
                     | Inr results \<Rightarrow> print_results results w2))))"

text \<open>\<^verbatim>\<open>except ValueError\<close> catches \<^verbatim>\<open>ValueError\<close> and its subclasses, of
  which the model has \<^verbatim>\<open>json.JSONDecodeError\<close>; every other exception leaves the
  loop and \<open>main\<close>.\<close>

definition is_ValueError :: "error \<Rightarrow> bool" where
  "is_ValueError e = (e = ValueError \<or> e = JSONDecodeError)"

definition detail_choice :: "string \<Rightarrow> NationalSite list \<Rightarrow> string \<Rightarrow> world \<Rightarrow> (error + unit) \<times> world" where
  "detail_choice api_key nationalStates token w =
     (case try_body api_key nationalStates token w of
        (Inr u, w') \<Rightarrow> (Inr u, w')
      | (Inl e, w') \<Rightarrow>
          if is_ValueError e
          then (Inr (), print SEPERATOR (print [] (print ''[Error] Invalid input'' w')))
          else (Inl e, w'))"

text \<open>The two nested \<^verbatim>\<open>while True\<close> statements read one line per iteration, so they
  are one recursion over the lines typed: in mode \<open>AskState\<close> the outer prompt is
  pending, in mode \<open>AskChoice\<close> the inner one. \<^verbatim>\<open>input\<close> writes its prompt and
  raises \<^verbatim>\<open>EOFError\<close> when no line is left.\<close>

datatype mode = AskState | AskChoice "NationalSite list"

definition STATE_PROMPT :: string where
  "STATE_PROMPT = ''Enter a state name (e.g. Michigan, michigan) or exit: ''"

definition CHOICE_PROMPT :: string where
  "CHOICE_PROMPT = ''Choose the number for detail search or \"exit\" or \"back\": ''"

fun print_sites :: "nat \<Rightarrow> NationalSite list \<Rightarrow> world \<Rightarrow> world" where
  "print_sites i [] w = w"
| "print_sites i (ns # rest) w =
     print_sites (Suc i) rest (print (''['' @ show_nat (i + 1) @ '']'' @ '' '' @ info ns) w)"

definition list_sites :: "json \<Rightarrow> string \<Rightarrow> world \<Rightarrow> (error + NationalSite list) \<times> world" where
  "list_sites state_dict token w =
     (case py_getitem state_dict token of
        Inl e \<Rightarrow> (Inl e, w)
      | Inr (JStr url) \<Rightarrow>
          (case get_sites_for_state url w of
             (Inl e, w') \<Rightarrow> (Inl e, w')
           | (Inr nationalStates, w') \<Rightarrow>
               (Inr nationalStates,
                print_sites 0 nationalStates
                  (print SEPERATOR (print (''List of national sites in '' @ token)
                    (print SEPERATOR w')))))
      | Inr _ \<Rightarrow> (Inl Unmodelled, w))"

fun main_loop :: "string \<Rightarrow> json \<Rightarrow> mode \<Rightarrow> string list \<Rightarrow> world \<Rightarrow> (error + unit) \<times> world" where
  "main_loop api_key state_dict AskState [] w = (Inl EOFError, print STATE_PROMPT w)"
| "main_loop api_key state_dict (AskChoice nationalStates) [] w = (Inl EOFError, print CHOICE_PROMPT w)"
| "main_loop api_key state_dict AskState (l # ls) w =
     (let token = lower (strip l); w0 = print STATE_PROMPT w in
      if token = ''exit'' then (Inr (), w0)
      else
        (case py_contains state_dict token of
           Inl e \<Rightarrow> (Inl e, w0)
         | Inr False \<Rightarrow>
             main_loop api_key state_dict AskState ls (print ''[Error] Enter proper state name'' w0)
         | Inr True \<Rightarrow>
             (case list_sites state_dict token w0 of
                (Inl e, w1) \<Rightarrow> (Inl e, w1)
              | (Inr nationalStates, w1) \<Rightarrow>
                  main_loop api_key state_dict (AskChoice nationalStates) ls w1)))"
| "main_loop api_key state_dict (AskChoice nationalStates) (l # ls) w =
     (let token = lower (strip l); w0 = print CHOICE_PROMPT w in
      if token = ''back'' then main_loop api_key state_dict AskState ls w0
      else if token = ''exit'' then (Inr (), w0)
      else
        (case detail_choice api_key nationalStates token w0 of
           (Inl e, w1) \<Rightarrow> (Inl e, w1)
         | (Inr u, w1) \<Rightarrow> main_loop api_key state_dict (AskChoice nationalStates) ls w1))"

definition main :: "string \<Rightarrow> string list \<Rightarrow> world \<Rightarrow> (error + unit) \<times> world" where
  "main api_key lines w =
     (case build_state_url_dict w of
        (Inl e, w') \<Rightarrow> (Inl e, w')
      | (Inr state_dict, w') \<Rightarrow> main_loop api_key state_dict AskState lines w')"

section \<open>The site list in the words of the specification\<close>

text \<open>The specification describes the result of \<open>get_sites_for_state\<close> as: resolve
  every asset entry in document order, then omit the entries whose resolution gave
  no result. \<open>resolve_all\<close> resolves the entries one after the other, each in the world
  the previous one left, and stops at the first exception; \<open>omit_none\<close> drops the
  entries without a result.\<close>

fun resolve_all :: "block list \<Rightarrow> world \<Rightarrow> (error + NationalSite option list) \<times> world" where
  "resolve_all [] w = (Inr [], w)"
| "resolve_all (b # bs) w =
     (case resolve_entry b w of
        (Inl e, w') \<Rightarrow> (Inl e, w')
      | (Inr r, w') \<Rightarrow>
          (case resolve_all bs w' of
             (Inl e, w'') \<Rightarrow> (Inl e, w'')
           | (Inr rs, w'') \<Rightarrow> (Inr (r # rs), w'')))"

fun omit_none :: "'a option list \<Rightarrow> 'a list" where
  "omit_none [] = []"
| "omit_none (None # rs) = omit_none rs"
| "omit_none (Some s # rs) = s # omit_none rs"

section \<open>Auxiliary notions for the proofs\<close>

text \<open>What may follow a number in a text without changing how the number reads.\<close>

definition ok_rest :: "string \<Rightarrow> bool" where
  "ok_rest r =
     (case r of
        [] \<Rightarrow> True
      | c # _ \<Rightarrow> \<not> is_digit c \<and> c \<noteq> CHR ''.'' \<and> c \<noteq> CHR ''e'' \<and> c \<noteq> CHR ''E'')"

text \<open>A recursion bound that suffices to read back the serialization of a value.\<close>

fun fuel_of :: "json \<Rightarrow> nat"
  and fuel_elems :: "json list \<Rightarrow> nat"
  and fuel_members :: "(string \<times> json) list \<Rightarrow> nat" where
  "fuel_of (JArr xs) = Suc (fuel_elems xs)"
| "fuel_of (JObj kvs) = Suc (fuel_members kvs)"
| "fuel_of _ = 1"
| "fuel_elems [] = 0"
| "fuel_elems (x # xs) = Suc (max (fuel_of x) (fuel_elems xs))"
| "fuel_members [] = 0"
| "fuel_members ((k, v) # kvs) = Suc (max (fuel_of v) (fuel_members kvs))"

section \<open>Worlds for the examples\<close>

definition no_soup :: soup where
  "no_soup = \<lparr>areas = [], title_container = None, address_p = None, telephone = None, blocks = []\<rparr>"

definition empty_world :: world where
  "empty_world = \<lparr>files = Map.empty, web = Map.empty, html_parser = (\<lambda>_. no_soup),
     default_parser = (\<lambda>_. no_soup), requests = [], stdout = []\<rparr>"

definition michigan_dict :: json where
  "michigan_dict = JObj [(''michigan'', JStr ''https://www.nps.gov/state/mi/index.htm'')]"

definition old_world :: world where
  "old_world = empty_world\<lparr>files := [STATE_CACHE \<mapsto> ''{}'']\<rparr>"



definition cached_world :: world where
  "cached_world = empty_world\<lparr>files := [STATE_CACHE \<mapsto> dumps michigan_dict]\<rparr>"

definition isle_royale :: soup where
  "isle_royale =
     \<lparr>areas = [],
      title_container = Some \<lparr>link_text = Some ''Isle Royale'', designation_text = Some ''National Park''\<rparr>,
      address_p = Some \<lparr>locality_text = Some ''Houghton'', region_text = Some '' MI '',
                        postal_text = Some '' 49931 ''\<rparr>,
      telephone = Some ''(906) 482-0984 '',
      blocks = []\<rparr>"

definition isro_url :: string where
  "isro_url = ''https://www.nps.gov/isro/index.htm''"

definition detail_world :: "soup \<Rightarrow> world" where
  "detail_world page = empty_world\<lparr>web := [isro_url \<mapsto> ''<html>''], html_parser := (\<lambda>_. page)\<rparr>"

definition isro_site :: NationalSite where
  "isro_site = \<lparr>category = ''National Park'', name = ''Isle Royale'', address = ''Houghton, MI'',
     zipcode = ''49931'', phone = ''(906) 482-0984''\<rparr>"

definition hit_world :: world where
  "hit_world = empty_world\<lparr>files := [SITE_CACHE \<mapsto> dumps (JObj [(isro_url, entry_of_site isro_site)])]\<rparr>"

definition no_address_soup :: soup where
  "no_address_soup = isle_royale\<lparr>address_p := None\<rparr>"


definition state_page :: soup where
  "state_page = no_soup\<lparr>blocks :=
     [\<lparr>block_id = Some ''asset_isro'', block_link = Href ''/isro/index.htm''\<rparr>,
      \<lparr>block_id = None, block_link = Href ''/none/index.htm''\<rparr>,
      \<lparr>block_id = Some ''asset_kewe'', block_link = Href ''/kewe/index.htm''\<rparr>,
      \<lparr>block_id = Some ''other'', block_link = NoDiv\<rparr>,
      \<lparr>block_id = Some ''asset_piro'', block_link = Href ''/piro/index.htm''\<rparr>]\<rparr>"

definition keweenaw :: soup where
  "keweenaw =
     \<lparr>areas = [],
      title_container = Some \<lparr>link_text = Some ''Keweenaw'',
                               designation_text = Some ''National Historical Park''\<rparr>,
      address_p = None,
      telephone = Some ''(906) 337-3168'',
      blocks = []\<rparr>"

definition pictured_rocks :: soup where
  "pictured_rocks =
     \<lparr>areas = [],
      title_container = Some \<lparr>link_text = Some ''Pictured Rocks'', designation_text = Some ''''\<rparr>,
      address_p = Some \<lparr>locality_text = Some ''Munising'', region_text = Some ''MI'',
                        postal_text = Some ''49862''\<rparr>,
      telephone = Some ''906-387-3700'',
      blocks = []\<rparr>"

definition piro_site :: NationalSite where
  "piro_site = \<lparr>category = '''', name = ''Pictured Rocks'', address = ''Munising, MI'',
     zipcode = ''49862'', phone = ''906-387-3700''\<rparr>"

definition mi_url :: string where
  "mi_url = ''https://www.nps.gov/state/mi/index.htm''"

definition michigan_world :: world where
  "michigan_world = empty_world\<lparr>
     web := [mi_url \<mapsto> ''mi'', isro_url \<mapsto> ''isro'',
             ''https://www.nps.gov/kewe/index.htm'' \<mapsto> ''kewe'',
             ''https://www.nps.gov/piro/index.htm'' \<mapsto> ''piro''],
     html_parser := (\<lambda>html. if html = ''isro'' then isle_royale
                             else if html = ''kewe'' then keweenaw
                             else if html = ''piro'' then pictured_rocks else no_soup),
     default_parser := (\<lambda>html. if html = ''mi'' then state_page else no_soup)\<rparr>"




section \<open>The serializer and the parser are inverse\<close>

lemma hex_val_hex_digit: "d < 16 \<Longrightarrow> hex_val (hex_digit d) = Some d"
  by (auto simp: hex_val_def hex_digit_def Let_def)

lemma hex4_00: "a < 16 \<Longrightarrow> b < 16 \<Longrightarrow> hex4 CHR ''0'' CHR ''0'' (hex_digit a) (hex_digit b) = Some (a * 16 + b)"
  by (simp add: hex4_def hex_val_hex_digit) (simp add: hex_val_def)

lemma hex4_char: "hex4 CHR ''0'' CHR ''0'' (hex_digit ((of_char c :: nat) div 16)) (hex_digit ((of_char c :: nat) mod 16)) = Some (of_char c)"
proof -
  have "(of_char c :: nat) < 256" by simp
  then have "(of_char c :: nat) div 16 < 16" by arith
  then show ?thesis by (simp add: hex4_00)
qed

lemma scanstring_escape_char:
  "scanstring (escape_char c @ rest) = cons_char c (scanstring rest)"
proof -
  have n: "(of_char c :: nat) < 256" by simp
  have "char_of ((of_char c :: nat) div 16 * 16 + of_char c mod 16) = c" by simp
  then show ?thesis
    using n by (auto simp: escape_char_def unescape_def hex4_char)
qed

lemma scanstring_encode:
  "scanstring (concat (map escape_char s) @ dquote # rest) = Inr (s, rest)"
  by (induction s) (simp_all add: scanstring_escape_char cons_char_def del: scanstring.simps(2), simp)

lemma digit_char_props: "d < 10 \<Longrightarrow> is_digit (digit_char d) \<and> digit_val (digit_char d) = d"
  by (simp add: is_digit_def digit_char_def digit_val_def)

lemma digit_char_zero: "d < 10 \<Longrightarrow> (digit_char d = CHR ''0'') = (d = 0)"
proof -
  assume "d < 10"
  then have "(of_char (digit_char d) :: nat) = 48 + d" by (simp add: digit_char_def)
  moreover have "(of_char CHR ''0'' :: nat) = 48" by simp
  ultimately have "(digit_char d = CHR ''0'') = ((48 + d :: nat) = 48)"
    by (metis of_char_eq_iff)
  then show ?thesis by simp
qed

lemma read_nat_show_nat:
  "read_nat acc (show_nat n @ rest) = read_nat (acc * 10 ^ length (show_nat n) + n) rest"
proof (induction n arbitrary: acc rest rule: show_nat.induct)
  case (1 n)
  show ?case
  proof (cases "n < 10")
    case True
    then show ?thesis
      by (simp add: show_nat.simps [of n] digit_char_props mult.commute)
  next
    case False
    have m: "n mod 10 < 10" by simp
    have "read_nat acc (show_nat n @ rest) = read_nat acc (show_nat (n div 10) @ digit_char (n mod 10) # rest)"
      using False by (simp add: show_nat.simps [of n])
    also have "\<dots> = read_nat (acc * 10 ^ length (show_nat (n div 10)) + n div 10) (digit_char (n mod 10) # rest)"
      using "1.IH" [OF False] by simp
    also have "\<dots> = read_nat (10 * (acc * 10 ^ length (show_nat (n div 10)) + n div 10) + n mod 10) rest"
      using digit_char_props [OF m] by simp
    also have "10 * (acc * 10 ^ length (show_nat (n div 10)) + n div 10) + n mod 10 = acc * 10 ^ length (show_nat n) + n"
      using False by (simp add: show_nat.simps [of n] algebra_simps)
    finally show ?thesis .
  qed
qed

lemma read_nat_stop: "ok_rest rest \<Longrightarrow> read_nat acc rest = (acc, rest)"
  by (cases rest) (simp_all add: ok_rest_def)

lemma show_nat_hd: "\<exists>c cs. show_nat n = c # cs \<and> is_digit c \<and> (c = CHR ''0'' \<longrightarrow> n = 0 \<and> cs = [])"
proof (induction n rule: show_nat.induct)
  case (1 n)
  show ?case
  proof (cases "n < 10")
    case True
    then show ?thesis
      by (simp add: show_nat.simps [of n] digit_char_props digit_char_zero)
  next
    case False
    from "1.IH" [OF False] obtain c cs where
      h: "show_nat (n div 10) = c # cs" "is_digit c" "c = CHR ''0'' \<longrightarrow> n div 10 = 0 \<and> cs = []"
      by blast
    have "n div 10 \<noteq> 0" using False by simp
    with h show ?thesis using False
      by (simp add: show_nat.simps [of n])
  qed
qed

lemma scan_digits_show_nat:
  assumes "ok_rest rest"
  shows "scan_digits neg (show_nat n @ rest) = Inr (JNum (if neg then - int n else int n), rest)"
proof -
  obtain c cs where h: "show_nat n = c # cs" "is_digit c" "c = CHR ''0'' \<longrightarrow> n = 0 \<and> cs = []"
    using show_nat_hd by blast
  have nf: "\<not> float_follows rest"
    using assms by (cases rest) (simp_all add: ok_rest_def float_follows_def)
  show ?thesis
  proof (cases "c = CHR ''0''")
    case True
    with h nf show ?thesis by (simp add: scan_digits_def finish_number_def)
  next
    case False
    have "read_nat 0 (show_nat n @ rest) = (n, rest)"
      by (simp add: read_nat_show_nat read_nat_stop [OF assms])
    then have "read_nat 0 (c # cs @ rest) = (n, rest)" using h by simp
    then show ?thesis using h False nf
      by (simp add: scan_digits_def finish_number_def del: read_nat.simps)
  qed
qed

lemma is_digit_not_special:
  "is_digit c \<Longrightarrow> c \<noteq> CHR ''-'' \<and> c \<noteq> CHR ''N'' \<and> c \<noteq> dquote \<and> c \<noteq> CHR ''{'' \<and> c \<noteq> CHR ''[''
     \<and> c \<noteq> CHR ''n'' \<and> c \<noteq> CHR ''t'' \<and> c \<noteq> CHR ''f'' \<and> c \<noteq> CHR '']'' \<and> \<not> is_ws c"
  by (auto simp: is_digit_def is_ws_def)

lemma scan_number_show_int:
  assumes "ok_rest rest"
  shows "scan_number (show_int i @ rest) = Inr (JNum i, rest)"
proof (cases "i < 0")
  case True
  then show ?thesis
    using scan_digits_show_nat [OF assms, of True "nat (- i)"]
    by (simp add: scan_number_def show_int_def)
next
  case False
  obtain c cs where h: "show_nat (nat i) = c # cs" "is_digit c"
    using show_nat_hd by blast
  then show ?thesis
    using False scan_digits_show_nat [OF assms, of False "nat i"] is_digit_not_special [of c]
    by (simp add: scan_number_def show_int_def)
qed

lemma show_int_hd:
  "\<exists>c cs. show_int i = c # cs \<and> c \<noteq> dquote \<and> c \<noteq> CHR ''{'' \<and> c \<noteq> CHR ''[''
     \<and> c \<noteq> CHR ''n'' \<and> c \<noteq> CHR ''t'' \<and> c \<noteq> CHR ''f'' \<and> c \<noteq> CHR '']'' \<and> \<not> is_ws c"
proof (cases "i < 0")
  case True
  then show ?thesis by (simp add: show_int_def is_ws_def)
next
  case False
  obtain c cs where h: "show_nat (nat i) = c # cs" "is_digit c"
    using show_nat_hd by blast
  then show ?thesis using False is_digit_not_special [of c] by (simp add: show_int_def)
qed

lemma ok_rest_simps [simp]:
  "ok_rest []" "ok_rest (CHR '','' # r)" "ok_rest (CHR '']'' # r)" "ok_rest (CHR ''}'' # r)"
  by (simp_all add: ok_rest_def is_digit_def)

lemma encode_string_app: "encode_string s @ rest = dquote # concat (map escape_char s) @ dquote # rest"
  by (simp add: encode_string_def)

lemma not_ws_simps [simp]:
  "\<not> is_ws CHR '']''" "\<not> is_ws CHR ''}''" "\<not> is_ws CHR '',''" "\<not> is_ws CHR '':''" "\<not> is_ws dquote"
  "is_ws CHR '' ''"
  by (simp_all add: is_ws_def)

lemma dumps_hd: "\<exists>c cs. dumps v = c # cs \<and> \<not> is_ws c \<and> c \<noteq> CHR '']''"
proof (cases v)
  case (JNum i)
  then show ?thesis using show_int_hd [of i] by auto
qed (auto simp: is_ws_def encode_string_def)

lemma skip_ws_dumps [simp]: "skip_ws (dumps v @ r) = dumps v @ r"
  using dumps_hd [of v] by auto

lemma dict_set_fresh: "k \<notin> fst ` set d \<Longrightarrow> dict_set d k v = d @ [(k, v)]"
  by (induction d) auto

lemma foldl_dict_set_distinct:
  "distinct (map fst (d @ ps)) \<Longrightarrow> foldl (\<lambda>d kv. dict_set d (fst kv) (snd kv)) d ps = d @ ps"
proof (induction ps arbitrary: d)
  case Nil
  then show ?case by simp
next
  case (Cons p ps)
  have "fst p \<notin> fst ` set d" using Cons.prems by auto
  then have "dict_set d (fst p) (snd p) = d @ [p]" by (simp add: dict_set_fresh)
  then show ?case using Cons.IH [of "d @ [p]"] Cons.prems by simp
qed

lemma dict_of_pairs_distinct: "distinct (map fst kvs) \<Longrightarrow> dict_of_pairs kvs = kvs"
  using foldl_dict_set_distinct [of "[]" kvs] by (simp add: dict_of_pairs_def)

lemma parse_value_JNum:
  "ok_rest rest \<Longrightarrow> parse_value (Suc n) (show_int i @ rest) = Inr (JNum i, rest)"
  using show_int_hd [of i] scan_number_show_int [of rest i] by auto

lemma parse_value_JStr:
  "parse_value (Suc n) (encode_string s @ rest) = Inr (JStr s, rest)"
  by (simp add: encode_string_app scanstring_encode del: scanstring.simps)

lemma dumps_elems_hd:
  "xs \<noteq> [] \<Longrightarrow> \<exists>c cs. dumps_elems xs = c # cs \<and> \<not> is_ws c \<and> c \<noteq> CHR '']''"
proof (cases xs)
  case Nil
  assume "xs \<noteq> []" with Nil show ?thesis by simp
next
  case (Cons y ys)
  obtain c cs where h: "dumps y = c # cs" "\<not> is_ws c" "c \<noteq> CHR '']''" using dumps_hd by blast
  show ?thesis using Cons h by (cases ys) auto
qed

lemma skip_ws_dumps_elems [simp]: "xs \<noteq> [] \<Longrightarrow> skip_ws (dumps_elems xs @ r) = dumps_elems xs @ r"
  using dumps_elems_hd [of xs] by auto

lemma dumps_members_hd:
  "kvs \<noteq> [] \<Longrightarrow> \<exists>cs. dumps_members kvs = dquote # cs"
proof (cases kvs)
  case Nil
  assume "kvs \<noteq> []" with Nil show ?thesis by simp
next
  case (Cons y ys)
  show ?thesis using Cons by (cases y; cases ys) (auto simp: encode_string_def)
qed

lemma skip_ws_dumps_members [simp]: "kvs \<noteq> [] \<Longrightarrow> skip_ws (dumps_members kvs @ r) = dumps_members kvs @ r"
  using dumps_members_hd [of kvs] by auto

lemma parse_value_JArr:
  assumes "xs \<noteq> []" and "parse_elems m (dumps_elems xs @ CHR '']'' # rest) = Inr (xs, rest)"
  shows "parse_value (Suc m) (CHR ''['' # dumps_elems xs @ CHR '']'' # rest) = Inr (JArr xs, rest)"
proof -
  obtain c cs where h: "dumps_elems xs = c # cs" "\<not> is_ws c" "c \<noteq> CHR '']''"
    using dumps_elems_hd [OF assms(1)] by blast
  show ?thesis using assms(2) h by simp
qed

lemma parse_value_JObj:
  assumes "kvs \<noteq> []" and "distinct (map fst kvs)"
    and "parse_members m (dumps_members kvs @ CHR ''}'' # rest) = Inr (kvs, rest)"
  shows "parse_value (Suc m) (CHR ''{'' # dumps_members kvs @ CHR ''}'' # rest) = Inr (JObj kvs, rest)"
proof -
  obtain cs where h: "dumps_members kvs = dquote # cs"
    using dumps_members_hd [OF assms(1)] by blast
  show ?thesis using assms(3) h by (simp add: dict_of_pairs_distinct [OF assms(2)])
qed

lemma parse_members_step:
  assumes "parse_value m (dumps v @ t) = Inr (v, t)"
  shows "parse_members (Suc m) (encode_string k @ CHR '':'' # CHR '' '' # dumps v @ t) =
    (case skip_ws t of
       [] \<Rightarrow> Inl Malformed
     | d # r3 \<Rightarrow>
         if d = CHR ''}'' then Inr ([(k, v)], r3)
         else if d = CHR '','' then
           (case parse_members m (skip_ws r3) of
              Inl e \<Rightarrow> Inl e
            | Inr (kvs, r4) \<Rightarrow> Inr ((k, v) # kvs, r4))
         else Inl Malformed)"
  using assms by (simp add: encode_string_app scanstring_encode del: scanstring.simps)

lemma parse_roundtrip:
  shows "wf_json v \<longrightarrow> (\<forall>n rest. fuel_of v \<le> n \<longrightarrow> ok_rest rest \<longrightarrow>
       parse_value n (dumps v @ rest) = Inr (v, rest))"
   and "list_all wf_json xs \<longrightarrow> xs \<noteq> [] \<longrightarrow> (\<forall>n rest. fuel_elems xs \<le> n \<longrightarrow>
       parse_elems n (dumps_elems xs @ CHR '']'' # rest) = Inr (xs, rest))"
   and "list_all (\<lambda>kv. wf_json (snd kv)) kvs \<longrightarrow> kvs \<noteq> [] \<longrightarrow> (\<forall>n rest. fuel_members kvs \<le> n \<longrightarrow>
       parse_members n (dumps_members kvs @ CHR ''}'' # rest) = Inr (kvs, rest))"
proof (induction v and xs and kvs rule: dumps_dumps_elems_dumps_members.induct)
  case 1
  show ?case
  proof (intro impI allI)
    fix n rest assume "fuel_of JNull \<le> n"
    then obtain m where "n = Suc m" by (cases n) auto
    then show "parse_value n (dumps JNull @ rest) = Inr (JNull, rest)"
      by (simp add: scan_literal_def)
  qed
next
  case (2 b)
  show ?case
  proof (intro impI allI)
    fix n rest assume "fuel_of (JBool b) \<le> n"
    then obtain m where "n = Suc m" by (cases n) auto
    then show "parse_value n (dumps (JBool b) @ rest) = Inr (JBool b, rest)"
      by (simp add: scan_literal_def)
  qed
next
  case (3 i)
  show ?case
  proof (intro impI allI)
    fix n rest assume "fuel_of (JNum i) \<le> n" and ok: "ok_rest rest"
    then obtain m where "n = Suc m" by (cases n) auto
    then show "parse_value n (dumps (JNum i) @ rest) = Inr (JNum i, rest)"
      using parse_value_JNum [OF ok] by simp
  qed
next
  case (4 s)
  show ?case
  proof (intro impI allI)
    fix n rest assume "fuel_of (JStr s) \<le> n"
    then obtain m where "n = Suc m" by (cases n) auto
    then show "parse_value n (dumps (JStr s) @ rest) = Inr (JStr s, rest)"
      using parse_value_JStr by simp
  qed
next
  case (5 xs)
  show ?case
  proof (intro impI allI)
    fix n rest assume wf: "wf_json (JArr xs)" and f: "fuel_of (JArr xs) \<le> n"
    then obtain m where n: "n = Suc m" and m: "fuel_elems xs \<le> m" by (cases n) auto
    show "parse_value n (dumps (JArr xs) @ rest) = Inr (JArr xs, rest)"
    proof (cases "xs = []")
      case True
      then show ?thesis using n by simp
    next
      case False
      have "parse_elems m (dumps_elems xs @ CHR '']'' # rest) = Inr (xs, rest)"
        using 5 wf False m by simp
      then show ?thesis using n parse_value_JArr [OF False] by simp
    qed
  qed
next
  case (6 kvs)
  show ?case
  proof (intro impI allI)
    fix n rest assume wf: "wf_json (JObj kvs)" and f: "fuel_of (JObj kvs) \<le> n"
    then obtain m where n: "n = Suc m" and m: "fuel_members kvs \<le> m" by (cases n) auto
    show "parse_value n (dumps (JObj kvs) @ rest) = Inr (JObj kvs, rest)"
    proof (cases "kvs = []")
      case True
      then show ?thesis using n by simp
    next
      case False
      have "parse_members m (dumps_members kvs @ CHR ''}'' # rest) = Inr (kvs, rest)"
        using 6 wf False m by simp
      then show ?thesis using n wf parse_value_JObj [OF False] by simp
    qed
  qed
next
  case 7
  then show ?case by simp
next
  case (8 x)
  show ?case
  proof (intro impI allI)
    fix n rest assume wf: "list_all wf_json [x]" and f: "fuel_elems [x] \<le> n"
    then obtain m where n: "n = Suc m" and m: "fuel_of x \<le> m" by (cases n) auto
    have "parse_value m (dumps x @ CHR '']'' # rest) = Inr (x, CHR '']'' # rest)"
      using 8 wf m by simp
    then show "parse_elems n (dumps_elems [x] @ CHR '']'' # rest) = Inr ([x], rest)"
      using n by simp
  qed
next
  case (9 x y ys)
  show ?case
  proof (intro impI allI)
    fix n rest assume wf: "list_all wf_json (x # y # ys)" and f: "fuel_elems (x # y # ys) \<le> n"
    then obtain m where n: "n = Suc m" and m: "fuel_of x \<le> m" "fuel_elems (y # ys) \<le> m" by (cases n) auto
    let ?tl = "dumps_elems (y # ys) @ CHR '']'' # rest"
    have 1: "parse_value m (dumps x @ CHR '','' # CHR '' '' # ?tl) = Inr (x, CHR '','' # CHR '' '' # ?tl)"
      using 9(1) wf m by simp
    have 2: "parse_elems m ?tl = Inr (y # ys, rest)"
      using 9(2) wf m by simp
    have 3: "skip_ws ?tl = ?tl" by (rule skip_ws_dumps_elems) simp
    show "parse_elems n (dumps_elems (x # y # ys) @ CHR '']'' # rest) = Inr (x # y # ys, rest)"
      using n 1 2 3 by simp
  qed
next
  case 10
  then show ?case by simp
next
  case (11 k v)
  show ?case
  proof (intro impI allI)
    fix n rest assume wf: "list_all (\<lambda>kv. wf_json (snd kv)) [(k, v)]" and f: "fuel_members [(k, v)] \<le> n"
    then obtain m where n: "n = Suc m" and m: "fuel_of v \<le> m" by (cases n) auto
    have "parse_value m (dumps v @ CHR ''}'' # rest) = Inr (v, CHR ''}'' # rest)"
      using 11 wf m by simp
    from parse_members_step [OF this, of k]
    show "parse_members n (dumps_members [(k, v)] @ CHR ''}'' # rest) = Inr ([(k, v)], rest)"
      using n by simp
  qed
next
  case (12 k v kv kvs)
  show ?case
  proof (intro impI allI)
    fix n rest assume wf: "list_all (\<lambda>kv. wf_json (snd kv)) ((k, v) # kv # kvs)"
      and f: "fuel_members ((k, v) # kv # kvs) \<le> n"
    then obtain m where n: "n = Suc m" and m: "fuel_of v \<le> m" "fuel_members (kv # kvs) \<le> m"
      by (cases n) auto
    let ?tl = "dumps_members (kv # kvs) @ CHR ''}'' # rest"
    have 1: "parse_value m (dumps v @ CHR '','' # CHR '' '' # ?tl) = Inr (v, CHR '','' # CHR '' '' # ?tl)"
      using 12(1) wf m by simp
    have 2: "parse_members m ?tl = Inr (kv # kvs, rest)"
      using 12(2) wf m by simp
    have 3: "skip_ws ?tl = ?tl" by (rule skip_ws_dumps_members) simp
    from parse_members_step [OF 1, of k]
    show "parse_members n (dumps_members ((k, v) # kv # kvs) @ CHR ''}'' # rest) = Inr ((k, v) # kv # kvs, rest)"
      using n 2 3 by simp
  qed
qed

lemma fuel_bound:
  shows "fuel_of v \<le> length (dumps v)"
    and "fuel_elems xs \<le> Suc (length (dumps_elems xs))"
    and "fuel_members kvs \<le> Suc (length (dumps_members kvs))"
proof (induction v and xs and kvs rule: dumps_dumps_elems_dumps_members.induct)
  case (3 i)
  then show ?case using show_int_hd [of i] by auto
qed (auto simp: encode_string_def)

lemma json_loads_dumps: "wf_json v \<Longrightarrow> json_loads (dumps v) = Inr v"
proof -
  assume wf: "wf_json v"
  have "fuel_of v \<le> 2 * length (dumps v) + 1" using fuel_bound(1) [of v] by simp
  then have "parse_value (2 * length (dumps v) + 1) (dumps v @ []) = Inr (v, [])"
    using parse_roundtrip(1) [rule_format, of v "2 * length (dumps v) + 1" "[]"] wf
    by (simp del: parse_value.simps)
  then show ?thesis using skip_ws_dumps [of v "[]"]
    by (simp add: json_loads_def del: parse_value.simps)
qed

subsection \<open>What the parser returns is well formed\<close>













subsection \<open>The recursion bound is never reached\<close>

text \<open>Every successful parse consumes at least one character, so the bound that
  \<open>json_loads\<close> starts with, twice the length of the text plus one, is never used
  up: a failure of \<open>json_loads\<close> is a failure of the decoder, or a text outside the
  model, never an artefact of the bound.\<close>

lemma skip_ws_length: "length (skip_ws s) \<le> length s"
  by (induction s) auto

lemma cons_char_Inr:
  "cons_char c x = Inr (str, r) \<Longrightarrow> \<exists>s'. x = Inr (s', r) \<and> str = c # s'"
  by (auto simp: cons_char_def split: sum.splits)

lemma cons_char_Inl: "cons_char c x = Inl e \<Longrightarrow> x = Inl e"
  by (auto simp: cons_char_def split: sum.splits)

lemma scanstring_cases:
  assumes "scanstring (c # cs) = res"
  shows "(c = dquote \<and> res = Inr ([], cs))
    \<or> (\<exists>ch t. length t < length (c # cs) \<and> res = cons_char ch (scanstring t))
    \<or> res = Inl Malformed \<or> res = Inl Unsupported"
proof (cases "c = dquote")
  case True
  then show ?thesis using assms by simp
next
  case nq: False
  have mid: ?thesis if "res = cons_char ch0 (scanstring t0)" "length t0 < length (c # cs)" for ch0 t0
    using that by blast
  show ?thesis
  proof (cases "c = bslash")
    case False
    show ?thesis
    proof (cases "(of_char c :: nat) < 32")
      case True
      then show ?thesis using assms nq False by simp
    next
      case ge: False
      have "res = cons_char c (scanstring cs)" using assms nq False ge by simp
      then show ?thesis by (rule mid) simp
    qed
  next
    case True
    show ?thesis
    proof (cases cs)
      case Nil
      then show ?thesis using assms nq True by simp
    next
      case (Cons e r)
      show ?thesis
      proof (cases "e = CHR ''u''")
        case False
        show ?thesis
        proof (cases "unescape e")
          case None
          then show ?thesis using assms nq True Cons False by simp
        next
          case (Some ch)
          have "res = cons_char ch (scanstring r)" using assms nq True Cons False Some by simp
          then show ?thesis by (rule mid) (simp add: Cons)
        qed
      next
        case u: True
        show ?thesis
        proof (cases "\<exists>h1 h2 h3 h4 r'. r = h1 # h2 # h3 # h4 # r'")
          case False
          then have "scanstring (c # cs) = Inl Malformed"
            using nq True Cons u by (auto split: list.splits)
          then show ?thesis using assms by simp
        next
          case True
          then obtain h1 h2 h3 h4 r' where r: "r = h1 # h2 # h3 # h4 # r'" by blast
          show ?thesis
          proof (cases "hex4 h1 h2 h3 h4")
            case None
            then show ?thesis using assms nq \<open>c = bslash\<close> Cons u r by simp
          next
            case (Some n)
            show ?thesis
            proof (cases "n < 256")
              case False
              then show ?thesis using assms nq \<open>c = bslash\<close> Cons u r Some by simp
            next
              case True
              have "res = cons_char (char_of n) (scanstring r')"
                using assms nq \<open>c = bslash\<close> Cons u r Some True by simp
              then show ?thesis by (rule mid) (simp add: Cons r)
            qed
          qed
        qed
      qed
    qed
  qed
qed

lemma scanstring_shorter: "scanstring s = Inr (str, r) \<Longrightarrow> length r < length s"
proof (induction "length s" arbitrary: s str rule: less_induct)
  case less
  show ?case
  proof (cases s)
    case Nil
    then show ?thesis using less.prems by simp
  next
    case (Cons c cs)
    from scanstring_cases [of c cs "Inr (str, r)"] less.prems Cons
    consider "r = cs" | ch t where "length t < length (c # cs)" "Inr (str, r) = cons_char ch (scanstring t)"
      by auto
    then show ?thesis
    proof cases
      case 1
      then show ?thesis using Cons by simp
    next
      case 2
      then obtain s' where "scanstring t = Inr (s', r)"
        using cons_char_Inr [of ch "scanstring t" str r] by auto
      then have "length r < length t" using less.hyps [of t s'] 2(1) Cons by simp
      then show ?thesis using 2(1) Cons by simp
    qed
  qed
qed

lemma scanstring_fuel: "scanstring s \<noteq> Inl OutOfFuel"
proof (induction "length s" arbitrary: s rule: less_induct)
  case less
  show ?case
  proof (cases s)
    case Nil
    then show ?thesis by simp
  next
    case (Cons c cs)
    show ?thesis
    proof
      assume a: "scanstring s = Inl OutOfFuel"
      from scanstring_cases [of c cs "Inl OutOfFuel"] a Cons
      obtain ch t where t: "length t < length (c # cs)" "Inl OutOfFuel = cons_char ch (scanstring t)"
        by auto
      then have "scanstring t = Inl OutOfFuel" using cons_char_Inl [of ch "scanstring t" OutOfFuel] by simp
      then show False using less.hyps [of t] t(1) Cons by simp
    qed
  qed
qed

lemma read_nat_length: "read_nat acc s = (n, r) \<Longrightarrow> length r \<le> length s"
  by (induction s arbitrary: acc) (auto split: if_splits intro: le_SucI)

lemma scan_number_shorter: "scan_number s = Inr (v, r) \<Longrightarrow> length r < length s"
  by (auto simp: scan_number_def scan_digits_def finish_number_def
      split: list.splits if_splits prod.splits dest!: read_nat_length)

lemma scan_number_fuel: "scan_number s \<noteq> Inl OutOfFuel"
  by (auto simp: scan_number_def scan_digits_def finish_number_def
      split: list.splits if_splits prod.splits)

lemma scan_literal_shorter: "lit \<noteq> [] \<Longrightarrow> scan_literal lit v s = Inr (v', r) \<Longrightarrow> length r < length s"
  by (cases s) (auto simp: scan_literal_def split: if_splits)

lemma scan_literal_fuel: "scan_literal lit v s \<noteq> Inl OutOfFuel"
  by (simp add: scan_literal_def)

lemma skip_ws_Cons_length: "skip_ws s = d # r \<Longrightarrow> Suc (length r) \<le> length s"
  using skip_ws_length [of s] by simp

lemma skip_ws_less: "length r < length (skip_ws s) \<Longrightarrow> length r < length s"
  using skip_ws_length [of s] by simp

lemma parse_shorter:
  "(\<forall>s v r. parse_value n s = Inr (v, r) \<longrightarrow> length r < length s)
   \<and> (\<forall>s vs r. parse_elems n s = Inr (vs, r) \<longrightarrow> length r < length s)
   \<and> (\<forall>s ps r. parse_members n s = Inr (ps, r) \<longrightarrow> length r < length s)"
proof (induction n)
  case 0
  then show ?case by simp
next
  case (Suc n)
  have IHv: "\<And>s v r. parse_value n s = Inr (v, r) \<Longrightarrow> length r < length s"
    and IHe: "\<And>s vs r. parse_elems n s = Inr (vs, r) \<Longrightarrow> length r < length s"
    and IHm: "\<And>s ps r. parse_members n s = Inr (ps, r) \<Longrightarrow> length r < length s"
    using Suc by blast+
  have v: "length r < length s" if "parse_value (Suc n) s = Inr (v, r)" for s v r
    using that
    by (auto split: list.splits if_splits sum.splits prod.splits
        dest!: scanstring_shorter scan_number_shorter IHe IHm skip_ws_Cons_length
          scan_literal_shorter [rotated])
  have e: "length r < length s" if "parse_elems (Suc n) s = Inr (vs, r)" for s vs r
    using that
    by (auto split: list.splits if_splits sum.splits prod.splits
        dest!: IHv IHe skip_ws_Cons_length skip_ws_less)
  have m: "length r < length s" if "parse_members (Suc n) s = Inr (ps, r)" for s ps r
    using that
    by (auto split: list.splits if_splits sum.splits prod.splits
        dest!: IHv IHm skip_ws_Cons_length scanstring_shorter skip_ws_less)
  show ?case using v e m by blast
qed

lemmas parse_value_shorter = parse_shorter [THEN conjunct1, rule_format]
lemmas parse_elems_shorter = parse_shorter [THEN conjunct2, THEN conjunct1, rule_format]
lemmas parse_members_shorter = parse_shorter [THEN conjunct2, THEN conjunct2, rule_format]

lemma parse_fuel:
  "(\<forall>s. parse_value n s = Inl OutOfFuel \<longrightarrow> n \<le> 2 * length s)
   \<and> (\<forall>s. parse_elems n s = Inl OutOfFuel \<longrightarrow> n < 2 * length s + 2)
   \<and> (\<forall>s. parse_members n s = Inl OutOfFuel \<longrightarrow> n < 2 * length s + 1)"
proof (induction n)
  case 0
  then show ?case by simp
next
  case (Suc n)
  have IHv: "\<And>s. parse_value n s = Inl OutOfFuel \<Longrightarrow> n \<le> 2 * length s"
    and IHe: "\<And>s. parse_elems n s = Inl OutOfFuel \<Longrightarrow> n < 2 * length s + 2"
    and IHm: "\<And>s. parse_members n s = Inl OutOfFuel \<Longrightarrow> n < 2 * length s + 1"
    using Suc by blast+
  have IHv_ws: "n \<le> 2 * length s" if "parse_value n (skip_ws s) = Inl OutOfFuel" for s
    using IHv [OF that] skip_ws_length [of s] by simp
  have IHe_ws: "n < 2 * length s + 2" if "parse_elems n (skip_ws s) = Inl OutOfFuel" for s
    using IHe [OF that] skip_ws_length [of s] by simp
  have IHm_ws: "n < 2 * length s + 1" if "parse_members n (skip_ws s) = Inl OutOfFuel" for s
    using IHm [OF that] skip_ws_length [of s] by simp
  have short_ws: "length r < length s" if "parse_value n (skip_ws s) = Inr (v, r)" for s v r
    using parse_value_shorter [OF that] skip_ws_length [of s] by simp
  have v: "Suc n \<le> 2 * length s" if "parse_value (Suc n) s = Inl OutOfFuel" for s
    using that scanstring_fuel scan_number_fuel scan_literal_fuel
    by (auto split: list.splits if_splits sum.splits prod.splits
        dest!: IHe IHm skip_ws_Cons_length)
  have e: "Suc n < 2 * length s + 2" if "parse_elems (Suc n) s = Inl OutOfFuel" for s
    using that
    by (auto split: list.splits if_splits sum.splits prod.splits
        dest!: IHv IHe_ws skip_ws_Cons_length parse_value_shorter)
  have m: "Suc n < 2 * length s + 1" if "parse_members (Suc n) s = Inl OutOfFuel" for s
    using that scanstring_fuel
    by (auto split: list.splits if_splits sum.splits prod.splits
        dest!: IHv_ws IHm_ws skip_ws_Cons_length short_ws scanstring_shorter)
  show ?case using v e m by blast
qed

lemma json_loads_fuel: "parse_value (2 * length s + 1) (skip_ws s) \<noteq> Inl OutOfFuel"
proof
  assume "parse_value (2 * length s + 1) (skip_ws s) = Inl OutOfFuel"
  then have "2 * length s + 1 \<le> 2 * length (skip_ws s)"
    using parse_fuel [of "2 * length s + 1"] by blast
  then show False using skip_ws_length [of s] by simp
qed

lemma json_loads_Unmodelled:
  "json_loads s = Inl Unmodelled \<longleftrightarrow>
     parse_value (2 * length s + 1) (skip_ws s) = Inl Unsupported"
  using json_loads_fuel [of s]
  by (auto simp: json_loads_def simp del: parse_value.simps
      split: sum.splits perr.splits prod.splits)

section \<open>The cache files: what a write leaves and what a read returns\<close>

lemma files_closeCache: "files (closeCache cache filename w) = (files w)(filename \<mapsto> dumps cache)"
  by (simp add: closeCache_def json_dump_def open_w_def)

lemma closeCache_other [simp]:
  "requests (closeCache cache filename w) = requests w"
  "stdout (closeCache cache filename w) = stdout w"
  "web (closeCache cache filename w) = web w"
  "html_parser (closeCache cache filename w) = html_parser w"
  "default_parser (closeCache cache filename w) = default_parser w"
  by (simp_all add: closeCache_def json_dump_def open_w_def)

lemma openCache_closeCache:
  "wf_json c \<Longrightarrow> openCache filename (closeCache c filename w) = Inr c"
  by (simp add: openCache_def files_closeCache json_loads_dumps)

text \<open>
  Claim C2. Writing a cache with \<open>closeCache\<close> and reading the same file name with
  \<open>openCache\<close> gives back the cache that was written. A Python dictionary has no
  duplicate keys, which is \<open>wf_json\<close>.
\<close>

theorem cache_round_trip:
  "wf_json c \<Longrightarrow> openCache filename (closeCache c filename w) = Inr c"
  by (rule openCache_closeCache)

theorem cache_round_trip_witness:
  "wf_json michigan_dict \<and>
   openCache STATE_CACHE (closeCache michigan_dict STATE_CACHE empty_world) = Inr michigan_dict"
proof -
  have wf: "wf_json michigan_dict" by (simp add: michigan_dict_def)
  show ?thesis using wf cache_round_trip [OF wf, of STATE_CACHE empty_world] by simp
qed

text \<open>
  Claim C1, as the code has it. \<open>closeCache\<close> serializes the entire cache and replaces
  the stored document in place: the file is truncated, then the document is written
  into it. There is no write to a temporary file and no rename. The call passes
  through a state in which the file is empty, which \<open>openCache\<close> cannot decode, and
  ends in the state in which the file holds exactly the new document.
\<close>

theorem closeCache_overwrites_in_place:
  "closeCache_states cache filename w =
     [w\<lparr>files := (files w)(filename \<mapsto> [])\<rparr>, closeCache cache filename w]
   \<and> openCache filename (w\<lparr>files := (files w)(filename \<mapsto> [])\<rparr>) = Inl JSONDecodeError
   \<and> files (closeCache cache filename w) = (files w)(filename \<mapsto> dumps cache)"
proof -
  have "json_loads [] = Inl JSONDecodeError" by (simp add: json_loads_def)
  then show ?thesis
    by (simp add: closeCache_states_def closeCache_def open_w_def json_dump_def openCache_def)
qed

theorem closeCache_overwrites_in_place_witness:
  "closeCache_states michigan_dict STATE_CACHE old_world =
     [old_world\<lparr>files := (files old_world)(STATE_CACHE \<mapsto> [])\<rparr>,
      closeCache michigan_dict STATE_CACHE old_world]
   \<and> openCache STATE_CACHE (old_world\<lparr>files := (files old_world)(STATE_CACHE \<mapsto> [])\<rparr>) =
      Inl JSONDecodeError
   \<and> files (closeCache michigan_dict STATE_CACHE old_world) =
      (files old_world)(STATE_CACHE \<mapsto> dumps michigan_dict)"
  using closeCache_overwrites_in_place [of michigan_dict STATE_CACHE old_world] by simp

text \<open>The claim as stated fails: when the file holds the document \<^verbatim>\<open>{}\<close> and a
  new cache is written, the state between the truncation and the write holds neither
  the previous document nor the new one, and a read of the file in that state fails.\<close>

theorem closeCache_crash_counterexample:
  "files (closeCache_states michigan_dict STATE_CACHE old_world ! 0) STATE_CACHE \<noteq> files old_world STATE_CACHE
   \<and> files (closeCache_states michigan_dict STATE_CACHE old_world ! 0) STATE_CACHE \<noteq> Some (dumps michigan_dict)
   \<and> openCache STATE_CACHE old_world = Inr (JObj [])
   \<and> openCache STATE_CACHE (closeCache_states michigan_dict STATE_CACHE old_world ! 0) = Inl JSONDecodeError"
  by code_simp




section \<open>The state directory and the site details\<close>

lemma print_fields [simp]:
  "files (print l w) = files w" "web (print l w) = web w" "requests (print l w) = requests w"
  "html_parser (print l w) = html_parser w" "default_parser (print l w) = default_parser w"
  "stdout (print l w) = stdout w @ [l]"
  by (simp_all add: print_def)

lemma openCache_cong: "files w' = files w \<Longrightarrow> openCache filename w' = openCache filename w"
  by (simp add: openCache_def)

lemma openCache_print [simp]: "openCache filename (print l w) = openCache filename w"
  by (simp add: openCache_def)

lemma urlopen_Some:
  "web w url = Some body \<Longrightarrow> urlopen url w = (Inr body, w\<lparr>requests := requests w @ [url]\<rparr>)"
  by (simp add: urlopen_def)

lemma urlopen_None:
  "web w url = None \<Longrightarrow> urlopen url w = (Inl URLError, w\<lparr>requests := requests w @ [url]\<rparr>)"
  by (simp add: urlopen_def)

text \<open>
  Claim C3. When the \<^verbatim>\<open>state_url\<close> cache file holds a non-empty mapping,
  \<open>build_state_url_dict\<close> returns that mapping as it is, a second call returns the
  same mapping, and neither call issues a request: after both calls the list of
  requests and the files are what they were.
\<close>

theorem build_state_url_dict_cached:
  assumes "openCache STATE_CACHE w = Inr (JObj kvs)" and "kvs \<noteq> []"
  shows "build_state_url_dict w = (Inr (JObj kvs), print ''Using cache'' w)
    \<and> build_state_url_dict (snd (build_state_url_dict w)) =
        (Inr (JObj kvs), print ''Using cache'' (print ''Using cache'' w))
    \<and> requests (snd (build_state_url_dict (snd (build_state_url_dict w)))) = requests w
    \<and> files (snd (build_state_url_dict (snd (build_state_url_dict w)))) = files w"
proof -
  have first: "build_state_url_dict w = (Inr (JObj kvs), print ''Using cache'' w)"
    using assms by (simp add: build_state_url_dict_def)
  have "openCache STATE_CACHE (print ''Using cache'' w) = Inr (JObj kvs)"
    using assms(1) by simp
  then have second: "build_state_url_dict (print ''Using cache'' w) =
      (Inr (JObj kvs), print ''Using cache'' (print ''Using cache'' w))"
    using assms(2) by (simp add: build_state_url_dict_def)
  show ?thesis using first second by simp
qed

theorem build_state_url_dict_cached_witness:
  "openCache STATE_CACHE cached_world = Inr michigan_dict
   \<and> build_state_url_dict cached_world = (Inr michigan_dict, print ''Using cache'' cached_world)
   \<and> build_state_url_dict (snd (build_state_url_dict cached_world)) =
        (Inr michigan_dict, print ''Using cache'' (print ''Using cache'' cached_world))
   \<and> requests (snd (build_state_url_dict (snd (build_state_url_dict cached_world)))) = []"
proof -
  have h: "openCache STATE_CACHE cached_world =
      Inr (JObj [(''michigan'', JStr ''https://www.nps.gov/state/mi/index.htm'')])"
    by code_simp
  have r: "requests cached_world = []" by (simp add: cached_world_def empty_world_def)
  show ?thesis
    using h r build_state_url_dict_cached [OF h] by (auto simp: michigan_dict_def)
qed

text \<open>
  Claim C10. On a cache hit, where the site URL is a key of the mapping stored in
  the site-detail file and its entry holds the five fields, \<open>get_site_instance\<close>
  returns the site built from the five stored fields, issues no request and writes no
  file: the world changes by the printed line only.
\<close>

theorem get_site_instance_cache_hit:
  assumes "openCache SITE_CACHE w = Inr (JObj kvs)"
    and "map_of kvs site_url = Some (JObj flds)"
    and "map_of flds ''category'' = Some (JStr c)"
    and "map_of flds ''name'' = Some (JStr n)"
    and "map_of flds ''address'' = Some (JStr a)"
    and "map_of flds ''zipcode'' = Some (JStr z)"
    and "map_of flds ''phone'' = Some (JStr p)"
  shows "get_site_instance site_url w =
      (Inr (Some \<lparr>category = c, name = n, address = a, zipcode = z, phone = p\<rparr>),
       print ''Using Cache'' w)
    \<and> files (snd (get_site_instance site_url w)) = files w
    \<and> requests (snd (get_site_instance site_url w)) = requests w"
proof -
  have "site_url \<in> fst ` set kvs" using map_of_SomeD [OF assms(2)] by force
  then have hit: "py_contains (JObj kvs) site_url = Inr True" by simp
  have "site_of_entry (JObj flds) = Inr \<lparr>category = c, name = n, address = a, zipcode = z, phone = p\<rparr>"
    using assms(3-7) by (simp add: site_of_entry_def ebind_def str_field_def)
  then have "get_site_instance site_url w =
      (Inr (Some \<lparr>category = c, name = n, address = a, zipcode = z, phone = p\<rparr>),
       print ''Using Cache'' w)"
    using assms(1,2) hit by (simp add: get_site_instance_def)
  then show ?thesis by simp
qed

theorem get_site_instance_cache_hit_witness:
  "openCache SITE_CACHE hit_world = Inr (JObj [(isro_url, entry_of_site isro_site)])
   \<and> get_site_instance isro_url hit_world = (Inr (Some isro_site), print ''Using Cache'' hit_world)
   \<and> files (snd (get_site_instance isro_url hit_world)) = files hit_world
   \<and> requests (snd (get_site_instance isro_url hit_world)) = requests hit_world"
proof -
  have h: "openCache SITE_CACHE hit_world = Inr (JObj [(isro_url, entry_of_site isro_site)])"
    by code_simp
  have e: "entry_of_site isro_site =
      JObj [(''category'', JStr ''National Park''), (''name'', JStr ''Isle Royale''),
            (''address'', JStr ''Houghton, MI''), (''zipcode'', JStr ''49931''),
            (''phone'', JStr ''(906) 482-0984'')]"
    by (simp add: entry_of_site_def isro_site_def)
  have m: "map_of [(isro_url, entry_of_site isro_site)] isro_url =
      Some (JObj [(''category'', JStr ''National Park''), (''name'', JStr ''Isle Royale''),
            (''address'', JStr ''Houghton, MI''), (''zipcode'', JStr ''49931''),
            (''phone'', JStr ''(906) 482-0984'')])"
    using e by simp
  show ?thesis
    using h get_site_instance_cache_hit [OF h m, of "''National Park''" "''Isle Royale''"
        "''Houghton, MI''" "''49931''" "''(906) 482-0984''"]
    by (simp add: isro_site_def)
qed

lemma files_urlopen [simp]:
  "files (snd (urlopen url w)) = files w"
  "html_parser (snd (urlopen url w)) = html_parser w"
  by (simp_all add: urlopen_def Let_def split: option.splits)

text \<open>
  Claim C4, as the code has it. For a detail page without the address block,
  \<open>get_site_instance\<close> writes nothing: the files are what they were, whatever the
  outcome. On a cache miss it returns \<^verbatim>\<open>None\<close> when the page has its title block
  (the title container with its link and its designation), which the code reads
  first; without the title block the call raises \<^verbatim>\<open>AttributeError\<close>.
\<close>

theorem get_site_instance_no_address:
  assumes "web w site_url = Some html" and "address_p (html_parser w html) = None"
  shows "files (snd (get_site_instance site_url w)) = files w
    \<and> (openCache SITE_CACHE w = Inr cache \<and> py_contains cache site_url = Inr False \<longrightarrow>
         ((\<exists>tc nm cat. title_container (html_parser w html) = Some tc
              \<and> link_text tc = Some nm \<and> designation_text tc = Some cat) \<longrightarrow>
            fst (get_site_instance site_url w) = Inr None)
       \<and> (\<not> (\<exists>tc nm cat. title_container (html_parser w html) = Some tc
              \<and> link_text tc = Some nm \<and> designation_text tc = Some cat) \<longrightarrow>
            fst (get_site_instance site_url w) = Inl AttributeError))"
proof -
  have p: "parse_site (html_parser w html) = Inr None \<or> parse_site (html_parser w html) = Inl AttributeError"
    using assms(2) by (auto simp: parse_site_def ebind_def found_def split: option.splits)
  have p1: "(\<exists>tc nm cat. title_container (html_parser w html) = Some tc
              \<and> link_text tc = Some nm \<and> designation_text tc = Some cat) \<Longrightarrow>
        parse_site (html_parser w html) = Inr None"
    using assms(2) by (auto simp: parse_site_def ebind_def found_def)
  have p2: "\<not> (\<exists>tc nm cat. title_container (html_parser w html) = Some tc
              \<and> link_text tc = Some nm \<and> designation_text tc = Some cat) \<Longrightarrow>
        parse_site (html_parser w html) = Inl AttributeError"
    by (auto simp: parse_site_def ebind_def found_def split: option.splits)
  have f: "files (snd (get_site_instance site_url w)) = files w"
    using p assms(1)
    by (auto simp: get_site_instance_def urlopen_def split: sum.splits bool.splits option.splits)
  have r: "openCache SITE_CACHE w = Inr cache \<Longrightarrow> py_contains cache site_url = Inr False \<Longrightarrow>
      fst (get_site_instance site_url w) =
        (case parse_site (html_parser w html) of Inl e \<Rightarrow> Inl e | Inr None \<Rightarrow> Inr None
          | Inr (Some ns) \<Rightarrow> (case py_setitem cache site_url (entry_of_site ns) of Inl e \<Rightarrow> Inl e | Inr _ \<Rightarrow> Inr (Some ns)))"
    using assms(1)
    by (auto simp: get_site_instance_def urlopen_def split: sum.splits option.splits)
  show ?thesis using f r p1 p2 by auto
qed

theorem get_site_instance_no_address_witness:
  "web (detail_world no_address_soup) isro_url = Some ''<html>''
   \<and> address_p (html_parser (detail_world no_address_soup) ''<html>'') = None
   \<and> openCache SITE_CACHE (detail_world no_address_soup) = Inr (JObj [])
   \<and> py_contains (JObj []) isro_url = Inr False
   \<and> fst (get_site_instance isro_url (detail_world no_address_soup)) = Inr None
   \<and> files (snd (get_site_instance isro_url (detail_world no_address_soup))) =
       files (detail_world no_address_soup)"
proof -
  have a: "web (detail_world no_address_soup) isro_url = Some ''<html>''"
    by (simp add: detail_world_def empty_world_def)
  have b: "address_p (html_parser (detail_world no_address_soup) ''<html>'') = None"
    by (simp add: detail_world_def empty_world_def no_address_soup_def)
  have c: "openCache SITE_CACHE (detail_world no_address_soup) = Inr (JObj [])"
    by (simp add: detail_world_def empty_world_def openCache_def)
  have d: "\<exists>tc nm cat. title_container (html_parser (detail_world no_address_soup) ''<html>'') = Some tc
      \<and> link_text tc = Some nm \<and> designation_text tc = Some cat"
    by (simp add: detail_world_def empty_world_def no_address_soup_def isle_royale_def)
  show ?thesis
    using a b c d get_site_instance_no_address [OF a b, of "JObj []"] by simp
qed

text \<open>The claim as stated fails: for a page with neither the address block nor the
  title block, on a cache miss, the call raises \<^verbatim>\<open>AttributeError\<close> and does not
  return \<^verbatim>\<open>None\<close>.\<close>

theorem get_site_instance_no_address_counterexample:
  "web (detail_world no_soup) isro_url = Some ''<html>''
   \<and> address_p (html_parser (detail_world no_soup) ''<html>'') = None
   \<and> openCache SITE_CACHE (detail_world no_soup) = Inr (JObj [])
   \<and> py_contains (JObj []) isro_url = Inr False
   \<and> fst (get_site_instance isro_url (detail_world no_soup)) = Inl AttributeError"
  by code_simp






section \<open>The sites of a state\<close>

lemma sites_loop_resolve_all:
  "sites_loop bs acc w =
     (case resolve_all (filter is_asset bs) w of
        (Inl e, w') \<Rightarrow> (Inl e, w')
      | (Inr rs, w') \<Rightarrow> (Inr (acc @ omit_none rs), w'))"
proof (induction bs arbitrary: acc w)
  case Nil
  then show ?case by simp
next
  case (Cons b bs)
  show ?case
  proof (cases "is_asset b")
    case False
    then show ?thesis using Cons.IH [of acc w]
      by (auto simp: is_asset_def split: option.splits)
  next
    case True
    then obtain i where i: "block_id b = Some i" "startswith i ''asset''"
      by (auto simp: is_asset_def split: option.splits)
    show ?thesis
    proof (cases "resolve_entry b w")
      case (Pair r w')
      show ?thesis
      proof (cases r)
        case (Inl e)
        then show ?thesis using True i Pair by simp
      next
        case (Inr opt)
        show ?thesis
        proof (cases opt)
          case None
          then show ?thesis using True i Pair Inr Cons.IH [of acc w']
            by (simp split: prod.splits sum.splits)
        next
          case (Some ns)
          then show ?thesis using True i Pair Inr Cons.IH [of "acc @ [ns]" w']
            by (simp split: prod.splits sum.splits)
        qed
      qed
    qed
  qed
qed

text \<open>Nothing but the entries without a result is dropped, and the order stays.\<close>

lemma omit_none_filter: "omit_none rs = map the (filter (\<lambda>r. r \<noteq> None) rs)"
  by (induction rs rule: omit_none.induct) simp_all

text \<open>
  Claim C6. \<open>get_sites_for_state\<close> returns the sites of the asset-marked entries of
  the state page in document order: it is the resolution of the asset entries one
  after the other, with the entries that resolve to \<^verbatim>\<open>None\<close> omitted and nothing
  else removed, so duplicates stay. In particular, for a page with three asset
  entries of which the second resolves to \<^verbatim>\<open>None\<close>, the result is the site of the
  first followed by the site of the third.
\<close>

theorem get_sites_for_state_order:
  "get_sites_for_state state_url w =
     (case urlopen state_url w of
        (Inl e, w') \<Rightarrow> (Inl e, w')
      | (Inr html, w') \<Rightarrow>
          (case resolve_all (filter is_asset (blocks (default_parser w' html))) w' of
             (Inl e, w'') \<Rightarrow> (Inl e, w'')
           | (Inr rs, w'') \<Rightarrow> (Inr (omit_none rs), w'')))
   \<and> (web w state_url = Some html
        \<and> filter is_asset (blocks (default_parser w html)) = [b1, b2, b3]
        \<and> resolve_entry b1 (w\<lparr>requests := requests w @ [state_url]\<rparr>) = (Inr (Some s1), w1)
        \<and> resolve_entry b2 w1 = (Inr None, w2)
        \<and> resolve_entry b3 w2 = (Inr (Some s3), w3)
      \<longrightarrow> get_sites_for_state state_url w = (Inr [s1, s3], w3))"
proof -
  have gen: "get_sites_for_state state_url w =
     (case urlopen state_url w of
        (Inl e, w') \<Rightarrow> (Inl e, w')
      | (Inr html, w') \<Rightarrow>
          (case resolve_all (filter is_asset (blocks (default_parser w' html))) w' of
             (Inl e, w'') \<Rightarrow> (Inl e, w'')
           | (Inr rs, w'') \<Rightarrow> (Inr (omit_none rs), w'')))"
    by (simp add: get_sites_for_state_def sites_loop_resolve_all split: prod.splits sum.splits)
  have three: "get_sites_for_state state_url w = (Inr [s1, s3], w3)"
    if "web w state_url = Some html"
      and "filter is_asset (blocks (default_parser w html)) = [b1, b2, b3]"
      and "resolve_entry b1 (w\<lparr>requests := requests w @ [state_url]\<rparr>) = (Inr (Some s1), w1)"
      and "resolve_entry b2 w1 = (Inr None, w2)"
      and "resolve_entry b3 w2 = (Inr (Some s3), w3)"
    using that by (simp add: gen urlopen_def)
  show ?thesis using gen three by blast
qed


theorem get_sites_for_state_order_witness:
  "web michigan_world mi_url = Some ''mi''
   \<and> filter is_asset (blocks (default_parser michigan_world ''mi'')) =
       [\<lparr>block_id = Some ''asset_isro'', block_link = Href ''/isro/index.htm''\<rparr>,
        \<lparr>block_id = Some ''asset_kewe'', block_link = Href ''/kewe/index.htm''\<rparr>,
        \<lparr>block_id = Some ''asset_piro'', block_link = Href ''/piro/index.htm''\<rparr>]
   \<and> fst (get_sites_for_state mi_url michigan_world) = Inr [isro_site, piro_site]"
proof -
  define b1 where "b1 = \<lparr>block_id = Some ''asset_isro'', block_link = Href ''/isro/index.htm''\<rparr>"
  define b2 where "b2 = \<lparr>block_id = Some ''asset_kewe'', block_link = Href ''/kewe/index.htm''\<rparr>"
  define b3 where "b3 = \<lparr>block_id = Some ''asset_piro'', block_link = Href ''/piro/index.htm''\<rparr>"
  define w0 where "w0 = michigan_world\<lparr>requests := requests michigan_world @ [mi_url]\<rparr>"
  define w1 where "w1 = snd (resolve_entry b1 w0)"
  define w2 where "w2 = snd (resolve_entry b2 w1)"
  define w3 where "w3 = snd (resolve_entry b3 w2)"
  have h1: "web michigan_world mi_url = Some ''mi''"
    by (simp add: michigan_world_def empty_world_def mi_url_def isro_url_def)
  have h2: "filter is_asset (blocks (default_parser michigan_world ''mi'')) = [b1, b2, b3]"
    unfolding b1_def b2_def b3_def by code_simp
  have "fst (resolve_entry b1 w0) = Inr (Some isro_site)"
    unfolding b1_def w0_def by code_simp
  then have e1: "resolve_entry b1 w0 = (Inr (Some isro_site), w1)"
    unfolding w1_def by (metis prod.collapse)
  have "fst (resolve_entry b2 w1) = Inr None"
    unfolding b1_def b2_def w0_def w1_def by code_simp
  then have e2: "resolve_entry b2 w1 = (Inr None, w2)"
    unfolding w2_def by (metis prod.collapse)
  have "fst (resolve_entry b3 w2) = Inr (Some piro_site)"
    unfolding b1_def b2_def b3_def w0_def w1_def w2_def by code_simp
  then have e3: "resolve_entry b3 w2 = (Inr (Some piro_site), w3)"
    unfolding w3_def by (metis prod.collapse)
  have "get_sites_for_state mi_url michigan_world = (Inr [isro_site, piro_site], w3)"
    using get_sites_for_state_order [of mi_url michigan_world "''mi''" b1 b2 b3 isro_site w1 w2 piro_site w3]
      h1 h2 e1 e2 e3 unfolding w0_def by blast
  then show ?thesis using h1 h2 unfolding b1_def b2_def b3_def by simp
qed

section \<open>Nearby places\<close>





section \<open>The selection of a site in the interactive loop\<close>

















end
